theory Spec2Isabelle
  imports Complex_Main
begin

section \<open>Python values\<close>

text \<open>
  The service receives its input as a JSON object and answers with one, so the values that
  flow through \<^verbatim>\<open>app.py\<close> are the Python images of JSON values: \<^verbatim>\<open>None\<close>, booleans,
  integers, floats, strings, lists and dictionaries with string keys.

  Idealisations, used throughout:
  \<^item> a Python \<^verbatim>\<open>float\<close> is a real number: arithmetic is exact, and the non-finite floats
    (\<^verbatim>\<open>inf\<close>, \<^verbatim>\<open>nan\<close>) do not exist, so no operation on floats overflows to them; the
    one overflow kept is the \<^verbatim>\<open>OverflowError\<close> of \<^verbatim>\<open>float(i)\<close> on a large integer. A
    binary float differs from the real it stands for by a relative error of at most
    \<open>2 ^ - 53\<close> per operation, so an equation between reals below holds of the code up to
    that error, and a decimal rounding of the code may fall on either neighbour where the
    real lies on (or within that error of) a tie: properties of rounded values are
    therefore stated through \<open>rounds_to\<close>, which leaves the tie open;
  \<^item> a character is one of the code points U+0000 .. U+00FF, held in one \<^typ>\<open>char\<close>;
  \<^item> the text of an exception, \<^verbatim>\<open>str(e)\<close>, is kept as the value \<open>PyStrOf e\<close>: it is a
    Python string whose wording belongs to the interpreter.
\<close>

datatype py_exn = ValueError | TypeError | KeyError | OverflowError

datatype pyval =
    PyNone
  | PyBool bool
  | PyInt int
  | PyFloat real
  | PyStr string
  | PyStrOf py_exn
  | PyList "pyval list"
  | PyDict "(string \<times> pyval) list"

type_synonym 'a result = "py_exn + 'a"

type_synonym pydict = "string \<rightharpoonup> pyval"

text \<open>\<^verbatim>\<open>d.get(key, default)\<close>\<close>

definition dict_get :: "pydict \<Rightarrow> string \<Rightarrow> pyval \<Rightarrow> pyval" where
  "dict_get d k dflt = (case d k of None \<Rightarrow> dflt | Some v \<Rightarrow> v)"

text \<open>\<^verbatim>\<open>key in d\<close>\<close>

definition has_key :: "pydict \<Rightarrow> string \<Rightarrow> bool" where
  "has_key d k = (k \<in> dom d)"

subsection \<open>Character classes\<close>

definition is_digit :: "char \<Rightarrow> bool" where
  "is_digit c = (c \<in> set ''0123456789'')"

text \<open>Whitespace as \<^verbatim>\<open>str.isspace\<close> and the pattern \<^verbatim>\<open>\s\<close> see it.\<close>

definition is_space :: "char \<Rightarrow> bool" where
  "is_space c = (c \<in> set [CHR 0x09, CHR 0x0A, CHR 0x0B, CHR 0x0C, CHR 0x0D,
                           CHR 0x1C, CHR 0x1D, CHR 0x1E, CHR 0x1F, CHR 0x20,
                           CHR 0x85, CHR 0xA0])"

text \<open>
  The whitespace that \<^verbatim>\<open>float(s)\<close> and \<^verbatim>\<open>int(s)\<close> remove around a literal: the
  separators U+001C .. U+001F are not part of it.
\<close>

definition is_literal_space :: "char \<Rightarrow> bool" where
  "is_literal_space c = (c \<in> set [CHR 0x09, CHR 0x0A, CHR 0x0B, CHR 0x0C, CHR 0x0D, CHR 0x20,
                                   CHR 0x85, CHR 0xA0])"

definition digit_value :: "char \<Rightarrow> nat" where
  "digit_value c = (case map_of (zip ''0123456789'' [0, 1, 2, 3, 4, 5, 6, 7, 8, 9]) c of
                      Some d \<Rightarrow> d | None \<Rightarrow> 0)"

text \<open>The value of a string of decimal digits, most significant first.\<close>

definition digits_value :: "string \<Rightarrow> nat" where
  "digits_value ds = foldl (\<lambda>acc c. 10 * acc + digit_value c) 0 ds"

subsection \<open>Numeric literals in strings\<close>

text \<open>
  The grammar that \<^verbatim>\<open>float(s)\<close> and \<^verbatim>\<open>int(s)\<close> accept:
  \<^verbatim>\<open>digitpart ::= digit (["_"] digit)*\<close>,
  \<^verbatim>\<open>number ::= [digitpart] "." digitpart | digitpart ["."]\<close>,
  \<^verbatim>\<open>exponent ::= ("e" | "E") [sign] digitpart\<close>,
  \<^verbatim>\<open>floatvalue ::= [sign] number [exponent]\<close>, surrounded by optional whitespace.
  The spellings of the non-finite floats (\<^verbatim>\<open>inf\<close>, \<^verbatim>\<open>infinity\<close>, \<^verbatim>\<open>nan\<close>), which
  \<^verbatim>\<open>float\<close> reads as well, have no value among the reals and are not accepted here.
  \<open>digitpart_tail\<close> reads what follows the first digit of a \<^verbatim>\<open>digitpart\<close> and returns the
  digits read and the rest of the input.
\<close>

fun digitpart_tail :: "string \<Rightarrow> string \<times> string" where
  "digitpart_tail [] = ([], [])"
| "digitpart_tail [c] = (if is_digit c then ([c], []) else ([], [c]))"
| "digitpart_tail (c # d # cs) =
     (if is_digit c then (case digitpart_tail (d # cs) of (ds, r) \<Rightarrow> (c # ds, r))
      else if c = CHR ''_'' \<and> is_digit d
        then (case digitpart_tail cs of (ds, r) \<Rightarrow> (d # ds, r))
      else ([], c # d # cs))"

definition digitpart :: "string \<Rightarrow> (string \<times> string) option" where
  "digitpart s =
     (case s of
        [] \<Rightarrow> None
      | c # cs \<Rightarrow> if is_digit c
                 then (case digitpart_tail cs of (ds, r) \<Rightarrow> Some (c # ds, r))
                 else None)"

definition strip :: "string \<Rightarrow> string" where
  "strip s = rev (dropWhile is_literal_space (rev (dropWhile is_literal_space s)))"

text \<open>An optional sign: the factor it stands for, and the rest.\<close>

definition sign_of :: "string \<Rightarrow> int \<times> string" where
  "sign_of s =
     (case s of
        [] \<Rightarrow> (1, [])
      | c # cs \<Rightarrow> if c = CHR ''+'' then (1, cs)
                 else if c = CHR ''-'' then (- 1, cs)
                 else (1, c # cs))"

text \<open>\<^verbatim>\<open>number\<close>: the integer digits, the fraction digits and the rest.\<close>

definition number :: "string \<Rightarrow> (string \<times> string \<times> string) option" where
  "number s =
     (case digitpart s of
        Some (ip, r) \<Rightarrow>
          (case r of
             [] \<Rightarrow> Some (ip, [], [])
           | c # r' \<Rightarrow>
               if c = CHR ''.''
               then (case digitpart r' of
                       Some (fp, r'') \<Rightarrow> Some (ip, fp, r'')
                     | None \<Rightarrow> Some (ip, [], r'))
               else Some (ip, [], r))
      | None \<Rightarrow>
          (case s of
             [] \<Rightarrow> None
           | c # r' \<Rightarrow>
               if c = CHR ''.''
               then (case digitpart r' of
                       Some (fp, r'') \<Rightarrow> Some ([], fp, r'')
                     | None \<Rightarrow> None)
               else None))"

text \<open>\<^verbatim>\<open>exponent\<close>, which must reach the end of the string; absent on the empty string.\<close>

definition exponent :: "string \<Rightarrow> int option" where
  "exponent s =
     (case s of
        [] \<Rightarrow> Some 0
      | c # r \<Rightarrow>
          if c = CHR ''e'' \<or> c = CHR ''E''
          then (case sign_of r of
                  (sg, r') \<Rightarrow>
                    (case digitpart r' of
                       Some (ds, []) \<Rightarrow> Some (sg * int (digits_value ds))
                     | Some (ds, x # xs) \<Rightarrow> None
                     | None \<Rightarrow> None))
          else None)"

definition mantissa :: "string \<Rightarrow> string \<Rightarrow> real" where
  "mantissa ip fp = real (digits_value ip) + real (digits_value fp) / 10 ^ length fp"

definition float_of_string :: "string \<Rightarrow> real result" where
  "float_of_string s =
     (case sign_of (strip s) of
        (sg, r) \<Rightarrow>
          (case number r of
             None \<Rightarrow> Inl ValueError
           | Some (ip, fp, r') \<Rightarrow>
               (case exponent r' of
                  None \<Rightarrow> Inl ValueError
                | Some e \<Rightarrow> Inr (real_of_int sg * mantissa ip fp * 10 powi e))))"

definition int_of_string :: "string \<Rightarrow> int result" where
  "int_of_string s =
     (case sign_of (strip s) of
        (sg, r) \<Rightarrow>
          (case digitpart r of
             Some (ds, []) \<Rightarrow> Inr (sg * int (digits_value ds))
           | Some (ds, x # xs) \<Rightarrow> Inl ValueError
           | None \<Rightarrow> Inl ValueError))"

subsection \<open>Conversions and comparison\<close>

text \<open>
  \<^verbatim>\<open>float(i)\<close> of an integer: an integer that rounds to a float beyond the largest one,
  \<open>2 ^ 1024 - 2 ^ 971\<close>, raises \<^verbatim>\<open>OverflowError\<close>; these are the integers of magnitude
  \<open>2 ^ 1024 - 2 ^ 970\<close> and more.
\<close>

definition float_of_int :: "int \<Rightarrow> real result" where
  "float_of_int i = (if \<bar>i\<bar> < 2 ^ 1024 - 2 ^ 970 then Inr (real_of_int i) else Inl OverflowError)"

text \<open>\<^verbatim>\<open>float(v)\<close>\<close>

fun py_float :: "pyval \<Rightarrow> real result" where
  "py_float (PyFloat x) = Inr x"
| "py_float (PyInt i) = float_of_int i"
| "py_float (PyBool b) = Inr (if b then 1 else 0)"
| "py_float (PyStr s) = float_of_string s"
| "py_float (PyStrOf e) = Inl ValueError"
| "py_float PyNone = Inl TypeError"
| "py_float (PyList xs) = Inl TypeError"
| "py_float (PyDict kvs) = Inl TypeError"

text \<open>\<^verbatim>\<open>int(v)\<close>: a float is truncated towards zero.\<close>

definition truncate :: "real \<Rightarrow> int" where
  "truncate x = (if 0 \<le> x then \<lfloor>x\<rfloor> else \<lceil>x\<rceil>)"

fun py_int :: "pyval \<Rightarrow> int result" where
  "py_int (PyInt i) = Inr i"
| "py_int (PyBool b) = Inr (if b then 1 else 0)"
| "py_int (PyFloat x) = Inr (truncate x)"
| "py_int (PyStr s) = int_of_string s"
| "py_int (PyStrOf e) = Inl ValueError"
| "py_int PyNone = Inl TypeError"
| "py_int (PyList xs) = Inl TypeError"
| "py_int (PyDict kvs) = Inl TypeError"

text \<open>\<^verbatim>\<open>v > 0\<close>: defined between numbers, a \<^verbatim>\<open>TypeError\<close> otherwise.\<close>

fun py_gt_zero :: "pyval \<Rightarrow> bool result" where
  "py_gt_zero (PyInt i) = Inr (0 < i)"
| "py_gt_zero (PyFloat x) = Inr (0 < x)"
| "py_gt_zero (PyBool b) = Inr b"
| "py_gt_zero v = Inl TypeError"

text \<open>Lists and dictionaries cannot be hashed, so they cannot be looked up as keys.\<close>

fun hashable :: "pyval \<Rightarrow> bool" where
  "hashable (PyList xs) = False"
| "hashable (PyDict kvs) = False"
| "hashable v = True"

subsection \<open>Rounding and formatting\<close>

text \<open>Rounding to the nearest integer, a tie going to the even neighbour.\<close>

definition round_half_even :: "real \<Rightarrow> int" where
  "round_half_even x =
     (let f = \<lfloor>x\<rfloor>; d = x - real_of_int f
      in if d < 1 / 2 then f
         else if 1 / 2 < d then f + 1
         else if even f then f else f + 1)"

text \<open>
  \<^verbatim>\<open>round(x, n)\<close>: the multiple of \<open>10 ^ - n\<close> nearest to \<open>x\<close>. Where the real \<open>x\<close> lies
  half-way between two multiples, this function goes to the even one, while the code rounds
  the binary float that stands for \<open>x\<close>, which lies on one side of the tie
  (\<^verbatim>\<open>round(0.15, 1)\<close> is \<^verbatim>\<open>0.1\<close> and \<^verbatim>\<open>round(0.505, 2)\<close> is \<^verbatim>\<open>0.51\<close>, where this
  function gives \<open>0.2\<close> and \<open>0.5\<close>). Away from ties both agree. The properties below that
  hold for every input state the rounded value through \<open>rounds_to\<close>, which admits both
  neighbours at a tie; the inputs evaluated below are away from ties.
\<close>

definition py_round :: "real \<Rightarrow> nat \<Rightarrow> real" where
  "py_round x n = real_of_int (round_half_even (x * 10 ^ n)) / 10 ^ n"

function show_nat :: "nat \<Rightarrow> string" where
  "show_nat n = (if n < 10 then [''0123456789'' ! n]
                 else show_nat (n div 10) @ [''0123456789'' ! (n mod 10)])"
  by pat_completeness auto
termination
  by (relation "measure id") auto

declare show_nat.simps [simp del]

text \<open>The format \<^verbatim>\<open>f"{x:.0f}"\<close>: no fraction digits, a minus sign for a negative number.\<close>

definition format_0f :: "real \<Rightarrow> string" where
  "format_0f x = (if x < 0 then ''-'' @ show_nat (nat (round_half_even (- x)))
                  else show_nat (nat (round_half_even x)))"

section \<open>The carbon calculator\<close>

text \<open>Carbon emission factors (kg CO2 per unit), in the order of the source's table.\<close>

definition EMISSION_FACTORS :: "(string \<times> real) list" where
  "EMISSION_FACTORS =
     [(''electricity_grid'', 0.416),
      (''natural_gas'', 0.202),
      (''gasoline'', 2.31),
      (''diesel'', 2.68),
      (''coal'', 0.820),
      (''solar'', 0.041),
      (''wind'', 0.011),
      (''hydro'', 0.024)]"

text \<open>\<^verbatim>\<open>EMISSION_FACTORS[key]\<close>\<close>

definition factor_item :: "string \<Rightarrow> real result" where
  "factor_item k = (case map_of EMISSION_FACTORS k of None \<Rightarrow> Inl KeyError | Some f \<Rightarrow> Inr f)"

text \<open>
  \<^verbatim>\<open>EMISSION_FACTORS.get(key, default)\<close>: the key is hashed first, which a list or a
  dictionary refuses; a key that is not a string of the table gives the default.
\<close>

definition factor_get :: "pyval \<Rightarrow> real \<Rightarrow> real result" where
  "factor_get key dflt =
     (if \<not> hashable key then Inl TypeError
      else (case key of
              PyStr s \<Rightarrow> (case map_of EMISSION_FACTORS s of None \<Rightarrow> Inr dflt | Some f \<Rightarrow> Inr f)
            | _ \<Rightarrow> Inr dflt))"

text \<open>
  The lookup of the calculator:
  \<^verbatim>\<open>EMISSION_FACTORS.get(energy_type, EMISSION_FACTORS['electricity_grid'])\<close>,
  the default being evaluated first.
\<close>

definition emission_factor_lookup :: "pyval \<Rightarrow> real result" where
  "emission_factor_lookup energy_type =
     (case factor_item ''electricity_grid'' of
        Inl e \<Rightarrow> Inl e
      | Inr grid \<Rightarrow> factor_get energy_type grid)"

text \<open>
  The regression model is fitted outside this file (scikit-learn); the calculator only calls
  \<^verbatim>\<open>self.model.predict(features)[0]\<close> on the array built from the feature vector. A model
  is therefore a function from the feature vector to the prediction or to the exception
  that building the array or predicting raises, and the calculator takes it as an argument.
\<close>

type_synonym model = "real list \<Rightarrow> real result"

text \<open>
  The target surface of \<^verbatim>\<open>create_default_model\<close>, to which the default model is fitted:
  \<^verbatim>\<open>X[:, 0] * EMISSION_FACTORS['electricity_grid'] * (1 + X[:, 1] * 0.1) * X[:, 2] * (2 - X[:, 3])\<close>.
  It serves below as a concrete model; like a fitted model, it refuses a feature vector
  that has not four entries with a \<^verbatim>\<open>ValueError\<close>.
\<close>

definition synthetic_target :: model where
  "synthetic_target X =
     (case X of
        [x0, x1, x2, x3] \<Rightarrow> Inr (x0 * 0.416 * (1 + x1 * 0.1) * x2 * (2 - x3))
      | _ \<Rightarrow> Inl ValueError)"

text \<open>\<^verbatim>\<open>calculate_confidence\<close>: the quantity is compared as it stands in the map.\<close>

definition calculate_confidence :: "pydict \<Rightarrow> real result" where
  "calculate_confidence data =
     (case (case data ''kWh'' of
              None \<Rightarrow> Inr False
            | Some v \<Rightarrow> py_gt_zero v) of
        Inl e \<Rightarrow> Inl e
      | Inr positive \<Rightarrow>
          (let confidence = 0.5;
               confidence = (if positive then confidence + 0.2 else confidence);
               confidence = (if has_key data ''type'' then confidence + 0.1 else confidence);
               confidence = (if has_key data ''household_size'' then confidence + 0.1 else confidence);
               confidence = (if has_key data ''region'' then confidence + 0.1 else confidence)
           in Inr (min confidence 1.0)))"

text \<open>One entry of the savings dictionary.\<close>

definition savings_entry :: "real \<Rightarrow> real \<Rightarrow> string \<Rightarrow> pyval" where
  "savings_entry saved grid effort =
     PyDict [(''kwh_saved'', PyFloat (py_round saved 1)),
             (''co2_saved'', PyFloat (py_round (saved * grid) 2)),
             (''cost_easy'', PyStr effort)]"

definition calculate_savings_potential :: "pydict \<Rightarrow> pyval result" where
  "calculate_savings_potential data =
     (case py_float (dict_get data ''kWh'' (PyInt 0)) of
        Inl e \<Rightarrow> Inl e
      | Inr current_kwh \<Rightarrow>
          (let led_savings = current_kwh * 0.15;
               smart_thermostat = current_kwh * 0.12;
               efficient_appliances = current_kwh * 0.20
           in case factor_item ''electricity_grid'' of
                Inl e \<Rightarrow> Inl e
              | Inr grid \<Rightarrow>
                  Inr (PyDict
                    [(''led_lighting'', savings_entry led_savings grid ''Easy''),
                     (''smart_thermostat'', savings_entry smart_thermostat grid ''Medium''),
                     (''efficient_appliances'', savings_entry efficient_appliances grid ''Hard'')])))"

text \<open>One recommendation record.\<close>

definition recommendation :: "string \<Rightarrow> string \<Rightarrow> string \<Rightarrow> string \<Rightarrow> real \<Rightarrow> pyval" where
  "recommendation title description impact effort saved =
     PyDict [(''title'', PyStr title),
             (''description'', PyStr description),
             (''impact'', PyStr impact),
             (''effort'', PyStr effort),
             (''potential_savings'', PyStr (format_0f saved @ '' kWh/month''))]"

definition high_usage :: "real \<Rightarrow> pyval" where
  "high_usage kwh = recommendation ''High Energy Usage Detected''
     ''Consider upgrading to energy-efficient appliances'' ''High'' ''Medium'' (kwh * 0.2)"

definition led_upgrade :: "real \<Rightarrow> pyval" where
  "led_upgrade kwh = recommendation ''LED Lighting Upgrade''
     ''Replace incandescent bulbs with LED lighting'' ''Medium'' ''Easy'' (kwh * 0.15)"

definition smart_thermostat :: "real \<Rightarrow> pyval" where
  "smart_thermostat kwh = recommendation ''Smart Thermostat''
     ''Install a programmable smart thermostat'' ''Medium'' ''Medium'' (kwh * 0.12)"

definition generate_recommendations :: "pydict \<Rightarrow> real \<Rightarrow> pyval list result" where
  "generate_recommendations data co2_amount =
     (case py_float (dict_get data ''kWh'' (PyInt 0)) of
        Inl e \<Rightarrow> Inl e
      | Inr kwh \<Rightarrow>
          (let recommendations = [];
               recommendations =
                 (if 1000 < kwh then recommendations @ [high_usage kwh] else recommendations);
               recommendations =
                 (if 500 < kwh then recommendations @ [led_upgrade kwh] else recommendations);
               recommendations = recommendations @ [smart_thermostat kwh]
           in Inr recommendations))"

text \<open>
  The body of the \<^verbatim>\<open>try\<close> in \<^verbatim>\<open>calculate_from_energy_data\<close>, an exception being the
  value \<open>Inl e\<close>. The region is read from the map and never used.
\<close>

definition try_calculate :: "model \<Rightarrow> pydict \<Rightarrow> (string \<times> pyval) list result" where
  "try_calculate predict energy_data =
     (case py_float (dict_get energy_data ''kWh'' (PyInt 0)) of
        Inl e \<Rightarrow> Inl e
      | Inr kwh \<Rightarrow>
     (let energy_type = dict_get energy_data ''type'' (PyStr ''electricity_grid'') in
     (case py_int (dict_get energy_data ''household_size'' (PyInt 2)) of
        Inl e \<Rightarrow> Inl e
      | Inr household_size \<Rightarrow>
     (case emission_factor_lookup energy_type of
        Inl e \<Rightarrow> Inl e
      | Inr emission_factor \<Rightarrow>
     (let basic_co2 = kwh * emission_factor;
          features = [kwh, real_of_int household_size, 1.0, 0.8] in
     (case predict features of
        Inl e \<Rightarrow> Inl e
      | Inr ml_co2 \<Rightarrow>
     (let final_co2 = (basic_co2 + ml_co2) / 2 in
     (case calculate_confidence energy_data of
        Inl e \<Rightarrow> Inl e
      | Inr confidence \<Rightarrow>
     (case calculate_savings_potential energy_data of
        Inl e \<Rightarrow> Inl e
      | Inr savings_potential \<Rightarrow>
     (case generate_recommendations energy_data final_co2 of
        Inl e \<Rightarrow> Inl e
      | Inr recommendations \<Rightarrow>
          Inr [(''co2_kg'', PyFloat (py_round final_co2 2)),
               (''confidence'', PyFloat confidence),
               (''breakdown'', PyDict
                  [(''energy_type'', energy_type),
                   (''consumption_kwh'', PyFloat kwh),
                   (''emission_factor'', PyFloat emission_factor),
                   (''basic_calculation'', PyFloat (py_round basic_co2 2)),
                   (''ml_enhanced'', PyFloat (py_round ml_co2 2))]),
               (''savings_potential'', savings_potential),
               (''recommendations'', PyList recommendations)]))))))))))"

text \<open>The dictionary the \<^verbatim>\<open>except\<close> branch returns.\<close>

definition error_result :: "py_exn \<Rightarrow> (string \<times> pyval) list" where
  "error_result e = [(''co2_kg'', PyInt 0), (''confidence'', PyInt 0), (''error'', PyStrOf e)]"

definition calculate_from_energy_data :: "model \<Rightarrow> pydict \<Rightarrow> (string \<times> pyval) list" where
  "calculate_from_energy_data predict energy_data =
     (case try_calculate predict energy_data of
        Inr res \<Rightarrow> res
      | Inl e \<Rightarrow> error_result e)"

subsection \<open>Notions used to state the properties of the calculator\<close>

text \<open>The values that \<^verbatim>\<open>v > 0\<close> accepts: JSON numbers and booleans.\<close>

fun is_number :: "pyval \<Rightarrow> bool" where
  "is_number (PyInt i) = True"
| "is_number (PyFloat x) = True"
| "is_number (PyBool b) = True"
| "is_number v = False"

text \<open>The map gives no quantity, or gives it as a number.\<close>

definition quantity_is_number :: "pydict \<Rightarrow> bool" where
  "quantity_is_number data = (case data ''kWh'' of None \<Rightarrow> True | Some v \<Rightarrow> is_number v)"

text \<open>
  The confidence score in terms of the converted quantity \<open>q\<close>: 0.5, plus 0.2 for a positive
  quantity, plus 0.1 for each of the three optional keys the map holds, at most 1.
\<close>

definition confidence_formula :: "pydict \<Rightarrow> real \<Rightarrow> real" where
  "confidence_formula data q =
     min (0.5 + (if 0 < q then 0.2 else 0)
              + (if has_key data ''type'' then 0.1 else 0)
              + (if has_key data ''household_size'' then 0.1 else 0)
              + (if has_key data ''region'' then 0.1 else 0)) 1"

text \<open>
  \<open>r\<close> is \<open>x\<close> rounded to \<open>n\<close> decimals: a multiple of \<open>10 ^ - n\<close> that is nearest to \<open>x\<close>. Where
  \<open>x\<close> lies half-way between two multiples, both are roundings of \<open>x\<close>.
\<close>

definition rounds_to :: "nat \<Rightarrow> real \<Rightarrow> real \<Rightarrow> bool" where
  "rounds_to n x r = (real_of_int \<lfloor>r * 10 ^ n\<rfloor> = r * 10 ^ n \<and> \<bar>r - x\<bar> \<le> 1 / (2 * 10 ^ n))"

section \<open>Regular expressions\<close>

text \<open>
  The bill parser searches the recognised text with \<^verbatim>\<open>re.search\<close> and \<^verbatim>\<open>re.findall\<close>. Its
  patterns use character classes, literal characters, greedy repetition of a class, optional
  parts, sequence and one capturing group; these are the constructors below. \<^verbatim>\<open>re\<close> matches
  by backtracking: a repetition tries its longest span first, an optional part is tried
  before it is skipped, and the first way that lets the rest of the pattern match is the match.
\<close>

text \<open>The pattern \<^verbatim>\<open>\w\<close>: letters, digits and the underscore, among the 256 code points.\<close>

definition is_word :: "char \<Rightarrow> bool" where
  "is_word c = (let n = of_char c :: nat in
     (48 \<le> n \<and> n \<le> 57) \<or> (65 \<le> n \<and> n \<le> 90) \<or> n = 95 \<or> (97 \<le> n \<and> n \<le> 122)
     \<or> n = 170 \<or> n = 178 \<or> n = 179 \<or> n = 181 \<or> n = 185 \<or> n = 186
     \<or> (188 \<le> n \<and> n \<le> 190) \<or> (192 \<le> n \<and> n \<le> 214) \<or> (216 \<le> n \<and> n \<le> 246)
     \<or> 248 \<le> n)"

text \<open>\<^verbatim>\<open>str.lower\<close> on one character: the letters A..Z and the capitals of U+00C0 .. U+00DE.\<close>

definition upper_letters :: string where
  "upper_letters = ''ABCDEFGHIJKLMNOPQRSTUVWXYZ'' @
     [CHR 0xC0, CHR 0xC1, CHR 0xC2, CHR 0xC3, CHR 0xC4, CHR 0xC5, CHR 0xC6, CHR 0xC7,
      CHR 0xC8, CHR 0xC9, CHR 0xCA, CHR 0xCB, CHR 0xCC, CHR 0xCD, CHR 0xCE, CHR 0xCF,
      CHR 0xD0, CHR 0xD1, CHR 0xD2, CHR 0xD3, CHR 0xD4, CHR 0xD5, CHR 0xD6,
      CHR 0xD8, CHR 0xD9, CHR 0xDA, CHR 0xDB, CHR 0xDC, CHR 0xDD, CHR 0xDE]"

definition lower_letters :: string where
  "lower_letters = ''abcdefghijklmnopqrstuvwxyz'' @
     [CHR 0xE0, CHR 0xE1, CHR 0xE2, CHR 0xE3, CHR 0xE4, CHR 0xE5, CHR 0xE6, CHR 0xE7,
      CHR 0xE8, CHR 0xE9, CHR 0xEA, CHR 0xEB, CHR 0xEC, CHR 0xED, CHR 0xEE, CHR 0xEF,
      CHR 0xF0, CHR 0xF1, CHR 0xF2, CHR 0xF3, CHR 0xF4, CHR 0xF5, CHR 0xF6,
      CHR 0xF8, CHR 0xF9, CHR 0xFA, CHR 0xFB, CHR 0xFC, CHR 0xFD, CHR 0xFE]"

definition lower_char :: "char \<Rightarrow> char" where
  "lower_char c = (case map_of (zip upper_letters lower_letters) c of Some l \<Rightarrow> l | None \<Rightarrow> c)"

definition lower :: "string \<Rightarrow> string" where
  "lower s = map lower_char s"

datatype cclass = Digit | Space | Word | Lit char

datatype regex =
    Eps
  | One cclass
  | Many cclass nat "nat option"
  | Opt regex
  | Seq regex regex
  | Group regex

text \<open>
  Whether a character is in a class; the flag is \<^verbatim>\<open>re.IGNORECASE\<close>, under which a literal
  letter matches in either case.
\<close>

fun in_class :: "bool \<Rightarrow> cclass \<Rightarrow> char \<Rightarrow> bool" where
  "in_class ic Digit x = is_digit x"
| "in_class ic Space x = is_space x"
| "in_class ic Word x = is_word x"
| "in_class ic (Lit p) x = (if ic then lower_char x = lower_char p else x = p)"

text \<open>
  What is left of the input after 0, 1, 2, ... leading characters that satisfy \<open>P\<close>, the
  shortest span first.
\<close>

fun spans :: "(char \<Rightarrow> bool) \<Rightarrow> string \<Rightarrow> string list" where
  "spans P [] = [[]]"
| "spans P (c # cs) = (c # cs) # (if P c then spans P cs else [])"

text \<open>A greedy repetition of at least \<open>lo\<close> and at most \<open>hi\<close> characters: the longest first.\<close>

definition repeats :: "(char \<Rightarrow> bool) \<Rightarrow> nat \<Rightarrow> nat option \<Rightarrow> string \<Rightarrow> string list" where
  "repeats P lo hi s =
     rev (drop lo (case hi of None \<Rightarrow> spans P s | Some h \<Rightarrow> take (Suc h) (spans P s)))"

text \<open>
  All the ways a pattern matches at the start of the input, in the order in which
  backtracking finds them. A state is the input that is left and the text of group 1.
\<close>

fun run :: "bool \<Rightarrow> regex \<Rightarrow> string \<times> string option \<Rightarrow> (string \<times> string option) list" where
  "run ic Eps st = [st]"
| "run ic (One c) (s, g) =
     (case s of [] \<Rightarrow> [] | x # xs \<Rightarrow> if in_class ic c x then [(xs, g)] else [])"
| "run ic (Many c lo hi) (s, g) = map (\<lambda>r. (r, g)) (repeats (in_class ic c) lo hi s)"
| "run ic (Opt r) st = run ic r st @ [st]"
| "run ic (Seq r1 r2) st = concat (map (run ic r2) (run ic r1 st))"
| "run ic (Group r) (s, g) =
     map (\<lambda>st'. (fst st', Some (take (length s - length (fst st')) s))) (run ic r (s, g))"

text \<open>The match at the start of the input, if any: what follows it, and group 1.\<close>

definition re_match :: "bool \<Rightarrow> regex \<Rightarrow> string \<Rightarrow> (string \<times> string option) option" where
  "re_match ic r s = (case run ic r (s, None) of [] \<Rightarrow> None | st # sts \<Rightarrow> Some st)"

text \<open>\<^verbatim>\<open>re.search\<close>: the match at the leftmost position that has one.\<close>

fun re_search :: "bool \<Rightarrow> regex \<Rightarrow> string \<Rightarrow> (string \<times> string option) option" where
  "re_search ic r [] = re_match ic r []"
| "re_search ic r (c # cs) =
     (case re_match ic r (c # cs) of Some m \<Rightarrow> Some m | None \<Rightarrow> re_search ic r cs)"

text \<open>\<^verbatim>\<open>match.group(1)\<close>: \<^verbatim>\<open>None\<close> for a group that took no part in the match.\<close>

definition group1 :: "string option \<Rightarrow> pyval" where
  "group1 g = (case g of None \<Rightarrow> PyNone | Some t \<Rightarrow> PyStr t)"

text \<open>
  \<^verbatim>\<open>re.findall\<close> for a pattern with one group: the texts of group 1 in the successive
  matches, each search starting where the last match ended. The search goes on only behind
  a match that is not empty; the date pattern has no empty match (lemma
  \<open>date_match_shorter\<close> below), so the other branch is never taken for it.
\<close>

function re_findall :: "bool \<Rightarrow> regex \<Rightarrow> string \<Rightarrow> string list" where
  "re_findall ic r s =
     (case re_search ic r s of
        None \<Rightarrow> []
      | Some (rest, g) \<Rightarrow>
          (case g of None \<Rightarrow> [] | Some t \<Rightarrow> t)
            # (if length rest < length s then re_findall ic r rest else []))"
  by pat_completeness auto
termination
  by (relation "measure (\<lambda>(ic, r, s). length s)") auto

declare re_findall.simps [simp del]

text \<open>A pattern from the characters of a string, and from a list of parts.\<close>

fun literal :: "string \<Rightarrow> regex" where
  "literal [] = Eps"
| "literal (c # cs) = Seq (One (Lit c)) (literal cs)"

fun seq :: "regex list \<Rightarrow> regex" where
  "seq [] = Eps"
| "seq (r # rs) = Seq r (seq rs)"

section \<open>The bill parser\<close>

text \<open>\<^verbatim>\<open>(\d+(?:\.\d+)?)\<close>\<close>

definition number_group :: regex where
  "number_group = Group (Seq (Many Digit 1 None) (Opt (Seq (One (Lit CHR ''.'')) (Many Digit 1 None))))"

text \<open>
  \<^verbatim>\<open>kwh_patterns\<close>, in the order of the list:
  \<^verbatim>\<open>(\d+(?:\.\d+)?)\s*kWh\<close>, \<^verbatim>\<open>(\d+(?:\.\d+)?)\s*KWH\<close>,
  \<^verbatim>\<open>Total\s*Usage:?\s*(\d+(?:\.\d+)?)\<close>, \<^verbatim>\<open>Energy\s*Used:?\s*(\d+(?:\.\d+)?)\<close>.
\<close>

definition kwh_pattern1 :: regex where
  "kwh_pattern1 = seq [number_group, Many Space 0 None, literal ''kWh'']"

definition kwh_pattern2 :: regex where
  "kwh_pattern2 = seq [number_group, Many Space 0 None, literal ''KWH'']"

definition kwh_pattern3 :: regex where
  "kwh_pattern3 =
     seq [literal ''Total'', Many Space 0 None, literal ''Usage'', Opt (One (Lit CHR '':'')),
          Many Space 0 None, number_group]"

definition kwh_pattern4 :: regex where
  "kwh_pattern4 =
     seq [literal ''Energy'', Many Space 0 None, literal ''Used'', Opt (One (Lit CHR '':'')),
          Many Space 0 None, number_group]"

definition kwh_patterns :: "regex list" where
  "kwh_patterns = [kwh_pattern1, kwh_pattern2, kwh_pattern3, kwh_pattern4]"

text \<open>
  \<^verbatim>\<open>amount_patterns\<close>, in the order of the list:
  \<^verbatim>\<open>\$(\d+(?:\.\d+)?)\<close>, \<^verbatim>\<open>Total\s*Amount:?\s*\$?(\d+(?:\.\d+)?)\<close>,
  \<^verbatim>\<open>Amount\s*Due:?\s*\$?(\d+(?:\.\d+)?)\<close>.
\<close>

definition amount_pattern1 :: regex where
  "amount_pattern1 = seq [One (Lit CHR ''$''), number_group]"

definition amount_pattern2 :: regex where
  "amount_pattern2 =
     seq [literal ''Total'', Many Space 0 None, literal ''Amount'', Opt (One (Lit CHR '':'')),
          Many Space 0 None, Opt (One (Lit CHR ''$'')), number_group]"

definition amount_pattern3 :: regex where
  "amount_pattern3 =
     seq [literal ''Amount'', Many Space 0 None, literal ''Due'', Opt (One (Lit CHR '':'')),
          Many Space 0 None, Opt (One (Lit CHR ''$'')), number_group]"

definition amount_patterns :: "regex list" where
  "amount_patterns = [amount_pattern1, amount_pattern2, amount_pattern3]"

text \<open>\<^verbatim>\<open>date_pattern\<close>: \<^verbatim>\<open>(\w+\s+\d{1,2},?\s+\d{4})\<close>\<close>

definition date_pattern :: regex where
  "date_pattern =
     Group (seq [Many Word 1 None, Many Space 1 None, Many Digit 1 (Some 2),
                 Opt (One (Lit CHR '','')), Many Space 1 None, Many Digit 4 (Some 4)])"

definition providers :: "string list" where
  "providers = [''PG&E'', ''ConEd'', ''Duke Energy'', ''Southern Company'', ''Electric Company'']"

text \<open>\<^verbatim>\<open>p in s\<close> on strings: \<open>p\<close> occurs in \<open>s\<close>.\<close>

fun contains :: "string \<Rightarrow> string \<Rightarrow> bool" where
  "contains [] p = (p = [])"
| "contains (c # cs) p = (take (length p) (c # cs) = p \<or> contains cs p)"

record bill_data =
  kwh :: real
  amount :: real
  service_period :: string
  provider :: string
  confidence :: real

text \<open>
  The loop \<^verbatim>\<open>for pattern in patterns: match = re.search(pattern, text, re.IGNORECASE);
  if match: ...; break\<close> stops at the first pattern that matches.
\<close>

fun first_match :: "regex list \<Rightarrow> string \<Rightarrow> (string \<times> string option) option" where
  "first_match [] text = None"
| "first_match (p # ps) text =
     (case re_search True p text of Some m \<Rightarrow> Some m | None \<Rightarrow> first_match ps text)"

text \<open>
  The two numeric fields. \<^verbatim>\<open>float(match.group(1))\<close> comes before the assignment, so an
  exception leaves the result as it was.
\<close>

definition extract_kwh :: "string \<Rightarrow> bill_data \<Rightarrow> bill_data result" where
  "extract_kwh text result =
     (case first_match kwh_patterns text of
        None \<Rightarrow> Inr result
      | Some (rest, g) \<Rightarrow>
          (case py_float (group1 g) of
             Inl e \<Rightarrow> Inl e
           | Inr x \<Rightarrow> Inr (result\<lparr>kwh := x, confidence := confidence result + 0.3\<rparr>)))"

definition extract_amount :: "string \<Rightarrow> bill_data \<Rightarrow> bill_data result" where
  "extract_amount text result =
     (case first_match amount_patterns text of
        None \<Rightarrow> Inr result
      | Some (rest, g) \<Rightarrow>
          (case py_float (group1 g) of
             Inl e \<Rightarrow> Inl e
           | Inr x \<Rightarrow> Inr (result\<lparr>amount := x, confidence := confidence result + 0.2\<rparr>)))"

text \<open>The service period: the first two dates found, joined by \<^verbatim>\<open>" - "\<close>.\<close>

definition extract_period :: "string \<Rightarrow> bill_data \<Rightarrow> bill_data" where
  "extract_period text result =
     (case re_findall False date_pattern text of
        d0 # d1 # ds \<Rightarrow>
          result\<lparr>service_period := d0 @ '' - '' @ d1, confidence := confidence result + 0.2\<rparr>
      | _ \<Rightarrow> result)"

text \<open>The provider: the first name of the list that occurs in the text, case ignored.\<close>

definition extract_provider :: "string \<Rightarrow> bill_data \<Rightarrow> bill_data" where
  "extract_provider text result =
     (case find (\<lambda>p. contains (lower text) (lower p)) providers of
        None \<Rightarrow> result
      | Some p \<Rightarrow> result\<lparr>provider := p, confidence := confidence result + 0.1\<rparr>)"

text \<open>
  \<^verbatim>\<open>parse_utility_bill\<close>. The four steps run inside one \<^verbatim>\<open>try\<close>: an exception ends the parsing
  and the result is returned as the steps before have left it.
\<close>

definition parse_utility_bill :: "string \<Rightarrow> bill_data" where
  "parse_utility_bill text =
     (let result = \<lparr>kwh = 0, amount = 0, service_period = [], provider = [], confidence = 0\<rparr> in
      case extract_kwh text result of
        Inl e \<Rightarrow> result
      | Inr result1 \<Rightarrow>
          (case extract_amount text result1 of
             Inl e \<Rightarrow> result1
           | Inr result2 \<Rightarrow>
               (let result3 = extract_period text result2;
                    result4 = extract_provider text result3
                in result4\<lparr>confidence := min (confidence result4) 1.0\<rparr>)))"

section \<open>The image analysis\<close>

text \<open>
  What \<^verbatim>\<open>analyze_image\<close> does with the text that the recognition returns (the upload, the
  file handling and the time stamp are left out): the text is parsed, the carbon footprint
  is calculated if a quantity was found, and the first 500 characters of the text are
  returned with both.
\<close>

record analysis =
  ocr_text :: string
  parsed_data :: bill_data
  carbon_analysis :: "(string \<times> pyval) list option"

definition analyze_image :: "model \<Rightarrow> string \<Rightarrow> analysis" where
  "analyze_image predict text =
     (let parsed_data = parse_utility_bill text;
          carbon_result =
            (if 0 < kwh parsed_data
             then Some (calculate_from_energy_data predict
                          [''kWh'' \<mapsto> PyFloat (kwh parsed_data),
                           ''type'' \<mapsto> PyStr ''electricity_grid''])
             else None)
      in \<lparr>ocr_text = take 500 text, parsed_data = parsed_data, carbon_analysis = carbon_result\<rparr>)"

subsection \<open>Notions used to state the properties of the parser\<close>

text \<open>
  The strings a pattern matches as a whole, whatever the order in which backtracking tries
  them, and the characters that can occur in such a string.
\<close>

fun matches :: "bool \<Rightarrow> regex \<Rightarrow> string \<Rightarrow> bool" where
  "matches ic Eps u = (u = [])"
| "matches ic (One c) u = (\<exists>x. u = [x] \<and> in_class ic c x)"
| "matches ic (Many c lo hi) u =
     ((\<forall>x\<in>set u. in_class ic c x) \<and> lo \<le> length u
      \<and> (case hi of None \<Rightarrow> True | Some h \<Rightarrow> length u \<le> h))"
| "matches ic (Opt r) u = (u = [] \<or> matches ic r u)"
| "matches ic (Seq r1 r2) u = (\<exists>u1 u2. u = u1 @ u2 \<and> matches ic r1 u1 \<and> matches ic r2 u2)"
| "matches ic (Group r) u = matches ic r u"

fun accepts :: "bool \<Rightarrow> regex \<Rightarrow> char \<Rightarrow> bool" where
  "accepts ic Eps x = False"
| "accepts ic (One c) x = in_class ic c x"
| "accepts ic (Many c lo hi) x = in_class ic c x"
| "accepts ic (Opt r) x = accepts ic r x"
| "accepts ic (Seq r1 r2) x = (accepts ic r1 x \<or> accepts ic r2 x)"
| "accepts ic (Group r) x = accepts ic r x"

definition starts_with_digit :: "string \<Rightarrow> bool" where
  "starts_with_digit s = (case s of [] \<Rightarrow> False | c # cs \<Rightarrow> is_digit c)"

text \<open>
  A date as a bill prints it, \<^verbatim>\<open><Month> <day>, <year>\<close>: a word, whitespace, a day of one or
  two digits, a comma or none, whitespace, and a year of four digits.
\<close>

definition date_shaped :: "string \<Rightarrow> bool" where
  "date_shaped d =
     (\<exists>month gap day comma space year.
        d = month @ gap @ day @ comma @ space @ year
        \<and> month \<noteq> [] \<and> (\<forall>c\<in>set month. is_word c)
        \<and> gap \<noteq> [] \<and> (\<forall>c\<in>set gap. is_space c)
        \<and> (length day = 1 \<or> length day = 2) \<and> (\<forall>c\<in>set day. is_digit c)
        \<and> (comma = [] \<or> comma = '','')
        \<and> space \<noteq> [] \<and> (\<forall>c\<in>set space. is_space c)
        \<and> length year = 4 \<and> (\<forall>c\<in>set year. is_digit c))"

text \<open>
  The number of places in a string where whitespace ends, that is, where a whitespace
  character is followed by another character. A date has two of them.
\<close>

fun space_ends :: "string \<Rightarrow> nat" where
  "space_ends [] = 0"
| "space_ends [x] = 0"
| "space_ends (x # y # zs) = (if is_space x \<and> \<not> is_space y then 1 else 0) + space_ends (y # zs)"

text \<open>Two bills that hold \<^verbatim>\<open>Total Usage: 850 kWh\<close>, \<^verbatim>\<open>Amount Due: $120.50\<close> and two dates.\<close>

definition sample_bill :: string where
  "sample_bill =
     ''PG&E Account 4471 Total Usage: 850 kWh Amount Due: $120.50 Jan 1, 2024 Jan 31, 2024''"

definition bill_with_earlier_reading :: string where
  "bill_with_earlier_reading =
     ''Usage 12 kWh. Total Usage: 850 kWh Amount Due: $120.50 Jan 1, 2024 Jan 31, 2024''"

section \<open>Properties of the carbon calculator\<close>

subsection \<open>Evaluation and auxiliary facts\<close>

text \<open>Integers of everyday size convert to floats; a conversion that succeeds keeps the value.\<close>

lemma float_of_small_int: "\<bar>i\<bar> \<le> 1000000000 \<Longrightarrow> float_of_int i = Inr (real_of_int i)"
  by (simp add: float_of_int_def)

lemma float_of_int_Inr: "float_of_int i = Inr q \<Longrightarrow> q = real_of_int i"
  by (simp add: float_of_int_def split: if_splits)

lemmas literal_defs =
  float_of_string_def int_of_string_def strip_def is_literal_space_def sign_of_def number_def
  digitpart_def is_digit_def exponent_def mantissa_def digits_value_def digit_value_def

lemmas calc_defs =
  calculate_from_energy_data_def try_calculate_def error_result_def dict_get_def Let_def
  emission_factor_lookup_def factor_item_def factor_get_def EMISSION_FACTORS_def
  calculate_confidence_def has_key_def calculate_savings_potential_def savings_entry_def
  generate_recommendations_def float_of_small_int synthetic_target_def


lemma factor_item_grid: "factor_item ''electricity_grid'' = Inr 0.416"
  by (simp add: factor_item_def EMISSION_FACTORS_def)

lemma round_half_even_near: "\<bar>real_of_int (round_half_even x) - x\<bar> \<le> 1 / 2"
  unfolding round_half_even_def Let_def by (auto split: if_splits)

lemma round_half_even_nonneg: "0 \<le> x \<Longrightarrow> 0 \<le> round_half_even x"
  unfolding round_half_even_def Let_def by (auto split: if_splits)

lemma py_round_nonneg: "0 \<le> x \<Longrightarrow> 0 \<le> py_round x n"
  unfolding py_round_def by (simp add: round_half_even_nonneg)

lemma py_round_near: "\<bar>py_round x n - x\<bar> \<le> 1 / (2 * 10 ^ n)"
proof -
  let ?p = "(10::real) ^ n"
  let ?r = "real_of_int (round_half_even (x * ?p))"
  have p: "0 < ?p" by simp
  have "\<bar>?r - x * ?p\<bar> \<le> 1 / 2"
    by (rule round_half_even_near)
  then have "\<bar>?r - x * ?p\<bar> / ?p \<le> (1 / 2) / ?p"
    using p by (rule_tac divide_right_mono) simp_all
  moreover have "py_round x n - x = (?r - x * ?p) / ?p"
    unfolding py_round_def using p by (simp add: diff_divide_distrib)
  then have "\<bar>py_round x n - x\<bar> = \<bar>?r - x * ?p\<bar> / ?p"
    using p by (simp only: abs_divide)
  ultimately show ?thesis by simp
qed

text \<open>The rounding of the model is a rounding in the sense of \<open>rounds_to\<close>.\<close>

lemma py_round_rounds_to: "rounds_to n x (py_round x n)"
proof -
  have "py_round x n * 10 ^ n = real_of_int (round_half_even (x * 10 ^ n))"
    unfolding py_round_def by simp
  then have "real_of_int \<lfloor>py_round x n * 10 ^ n\<rfloor> = py_round x n * 10 ^ n"
    by simp
  then show ?thesis
    unfolding rounds_to_def using py_round_near[of x n] by simp
qed

lemma rounds_to_nonneg:
  assumes "rounds_to n x r" and "0 \<le> x"
  shows "0 \<le> r"
proof -
  define k where "k = \<lfloor>r * 10 ^ n\<rfloor>"
  have p: "(0::real) < 10 ^ n" by simp
  from assms(1) have "real_of_int k = r * 10 ^ n"
    and near: "\<bar>r - x\<bar> \<le> 1 / (2 * 10 ^ n)"
    unfolding rounds_to_def k_def by simp_all
  then have r: "r = real_of_int k / 10 ^ n" using p by simp
  have "- (1 / (2 * 10 ^ n)) \<le> r" using near assms(2) by linarith
  then have "- (1 / (2 * 10 ^ n)) * 10 ^ n \<le> r * 10 ^ n"
    using p by (simp only: mult_le_cancel_right_pos)
  then have "- (1 / 2) \<le> real_of_int k" using r p by simp
  then have "0 \<le> k" by linarith
  then show ?thesis using r by simp
qed

lemma hashable_lookup:
  "hashable v \<Longrightarrow> emission_factor_lookup v =
     Inr (case v of
            PyStr s \<Rightarrow> (case map_of EMISSION_FACTORS s of None \<Rightarrow> 0.416 | Some f \<Rightarrow> f)
          | _ \<Rightarrow> 0.416)"
  by (cases v)
     (simp_all add: emission_factor_lookup_def factor_item_grid factor_get_def
        split: option.splits)

lemma unhashable_lookup: "\<not> hashable v \<Longrightarrow> emission_factor_lookup v = Inl TypeError"
  by (simp add: emission_factor_lookup_def factor_item_grid factor_get_def)

lemma lookup_positive: "emission_factor_lookup v = Inr f \<Longrightarrow> 0 < f"
  by (cases v)
     (auto simp add: emission_factor_lookup_def factor_item_grid factor_get_def
        EMISSION_FACTORS_def split: if_splits)

lemma confidence_value:
  assumes "calculate_confidence data = Inr c"
    and "py_float (dict_get data ''kWh'' (PyInt 0)) = Inr q"
  shows "c = confidence_formula data q"
proof (cases "data ''kWh''")
  case None
  with assms show ?thesis
    by (auto simp add: calculate_confidence_def confidence_formula_def dict_get_def Let_def
        float_of_small_int)
next
  case (Some v)
  with assms show ?thesis
    by (cases v)
       (auto simp add: calculate_confidence_def confidence_formula_def dict_get_def Let_def
          float_of_int_def split: if_splits)
qed

lemma confidence_succeeds:
  assumes "quantity_is_number data"
  shows "\<exists>c. calculate_confidence data = Inr c"
proof (cases "data ''kWh''")
  case None
  then show ?thesis by (simp add: calculate_confidence_def Let_def)
next
  case (Some v)
  with assms have "is_number v" by (simp add: quantity_is_number_def)
  with Some show ?thesis
    by (cases v) (simp_all add: calculate_confidence_def Let_def)
qed

lemma confidence_range: "calculate_confidence data = Inr c \<Longrightarrow> 0 \<le> c \<and> c \<le> 1"
  by (auto simp add: calculate_confidence_def Let_def split: sum.splits option.splits if_splits)

lemma savings_succeeds:
  "py_float (dict_get data ''kWh'' (PyInt 0)) = Inr q \<Longrightarrow>
   calculate_savings_potential data = Inr (PyDict
     [(''led_lighting'', savings_entry (q * 0.15) 0.416 ''Easy''),
      (''smart_thermostat'', savings_entry (q * 0.12) 0.416 ''Medium''),
      (''efficient_appliances'', savings_entry (q * 0.20) 0.416 ''Hard'')])"
  by (simp add: calculate_savings_potential_def factor_item_grid Let_def)

lemma recommendations_succeed:
  "py_float (dict_get data ''kWh'' (PyInt 0)) = Inr q \<Longrightarrow>
   \<exists>recs. generate_recommendations data co2 = Inr recs"
  by (simp add: generate_recommendations_def Let_def)

text \<open>What a run of the \<^verbatim>\<open>try\<close> body without exception returns, and when there is one.\<close>

lemma try_calculate_Inr:
  assumes "try_calculate predict data = Inr res"
  shows "\<exists>q h f p c sp recs.
     py_float (dict_get data ''kWh'' (PyInt 0)) = Inr q \<and>
     py_int (dict_get data ''household_size'' (PyInt 2)) = Inr h \<and>
     emission_factor_lookup (dict_get data ''type'' (PyStr ''electricity_grid'')) = Inr f \<and>
     predict [q, real_of_int h, 1.0, 0.8] = Inr p \<and>
     calculate_confidence data = Inr c \<and>
     res = [(''co2_kg'', PyFloat (py_round ((q * f + p) / 2) 2)),
            (''confidence'', PyFloat c),
            (''breakdown'', PyDict
               [(''energy_type'', dict_get data ''type'' (PyStr ''electricity_grid'')),
                (''consumption_kwh'', PyFloat q),
                (''emission_factor'', PyFloat f),
                (''basic_calculation'', PyFloat (py_round (q * f) 2)),
                (''ml_enhanced'', PyFloat (py_round p 2))]),
            (''savings_potential'', sp),
            (''recommendations'', PyList recs)]"
  using assms unfolding try_calculate_def Let_def
  by (auto split: sum.splits)

lemma try_calculate_success:
  assumes "py_float (dict_get data ''kWh'' (PyInt 0)) = Inr q"
    and "py_int (dict_get data ''household_size'' (PyInt 2)) = Inr h"
    and "emission_factor_lookup (dict_get data ''type'' (PyStr ''electricity_grid'')) = Inr f"
    and "predict [q, real_of_int h, 1.0, 0.8] = Inr p"
    and "calculate_confidence data = Inr c"
  shows "\<exists>sp recs. try_calculate predict data = Inr
           [(''co2_kg'', PyFloat (py_round ((q * f + p) / 2) 2)),
            (''confidence'', PyFloat c),
            (''breakdown'', PyDict
               [(''energy_type'', dict_get data ''type'' (PyStr ''electricity_grid'')),
                (''consumption_kwh'', PyFloat q),
                (''emission_factor'', PyFloat f),
                (''basic_calculation'', PyFloat (py_round (q * f) 2)),
                (''ml_enhanced'', PyFloat (py_round p 2))]),
            (''savings_potential'', sp),
            (''recommendations'', PyList recs)]"
proof -
  obtain recs where "generate_recommendations data ((q * f + p) / 2) = Inr recs"
    using recommendations_succeed[OF assms(1)] by blast
  then show ?thesis
    using assms savings_succeeds[OF assms(1)]
    unfolding try_calculate_def Let_def
    by simp
qed

lemma try_calculate_fails:
  assumes "py_float (dict_get data ''kWh'' (PyInt 0)) = Inl e
      \<or> py_int (dict_get data ''household_size'' (PyInt 2)) = Inl e
      \<or> emission_factor_lookup (dict_get data ''type'' (PyStr ''electricity_grid'')) = Inl e
      \<or> calculate_confidence data = Inl e"
  shows "\<exists>e'. try_calculate predict data = Inl e'"
  using assms unfolding try_calculate_def Let_def
  by (auto split: sum.splits)

text \<open>
  The calculator always returns: its result has the three keys of the \<^verbatim>\<open>except\<close> branch or
  the five keys of a complete estimate, whose savings potential and recommendations are what
  the two functions of these names return.
\<close>

lemma result_keys:
  "map fst (calculate_from_energy_data predict data) = [''co2_kg'', ''confidence'', ''error'']
   \<or> map fst (calculate_from_energy_data predict data)
       = [''co2_kg'', ''confidence'', ''breakdown'', ''savings_potential'', ''recommendations'']"
proof (cases "try_calculate predict data")
  case (Inl e)
  then show ?thesis by (simp add: calculate_from_energy_data_def error_result_def)
next
  case (Inr res)
  from try_calculate_Inr[OF Inr] show ?thesis
    using Inr by (auto simp add: calculate_from_energy_data_def)
qed

lemma estimate_carries_savings_and_recommendations:
  assumes "map_of (calculate_from_energy_data predict data) ''error'' = None"
  shows "\<exists>sp recs co2. calculate_savings_potential data = Inr sp
           \<and> generate_recommendations data co2 = Inr recs
           \<and> map_of (calculate_from_energy_data predict data) ''savings_potential'' = Some sp
           \<and> map_of (calculate_from_energy_data predict data) ''recommendations''
               = Some (PyList recs)"
proof (cases "try_calculate predict data")
  case (Inl e)
  with assms show ?thesis by (simp add: calculate_from_energy_data_def error_result_def)
next
  case (Inr res)
  then show ?thesis
    unfolding calculate_from_energy_data_def try_calculate_def Let_def
    by (auto split: sum.splits)
qed

subsection \<open>The estimate\<close>

text \<open>
  Where the estimation meets no exception, the estimate is the unweighted mean. Take an input
  map whose quantity \<^verbatim>\<open>'kWh'\<close> is absent or a number with value \<open>q \<ge> 0\<close>, whose household size
  converts to the integer \<open>h\<close> and whose source kind resolves to the factor \<open>f\<close>, and a
  regression model that predicts \<open>p \<ge> 0\<close> on the feature vector \<open>(q, h, 1.0, 0.8)\<close>. Then the
  field \<^verbatim>\<open>co2_kg\<close> of the result is the mean of \<open>q * f\<close> and \<open>p\<close> rounded to two decimals, and it
  is not negative.
\<close>

lemma estimate_on_numeric_quantity:
  assumes num: "quantity_is_number data"
    and q: "py_float (dict_get data ''kWh'' (PyInt 0)) = Inr q"
    and q0: "0 \<le> q"
    and h: "py_int (dict_get data ''household_size'' (PyInt 2)) = Inr h"
    and f: "emission_factor_lookup (dict_get data ''type'' (PyStr ''electricity_grid'')) = Inr f"
    and p: "predict [q, real_of_int h, 1.0, 0.8] = Inr p"
    and p0: "0 \<le> p"
  shows "\<exists>co2. map_of (calculate_from_energy_data predict data) ''co2_kg'' = Some (PyFloat co2)
           \<and> rounds_to 2 ((q * f + p) / 2) co2 \<and> 0 \<le> co2"
proof -
  let ?mean = "(q * f + p) / 2"
  obtain c where c: "calculate_confidence data = Inr c"
    using confidence_succeeds[of data] num by blast
  obtain sp recs where "try_calculate predict data = Inr
           [(''co2_kg'', PyFloat (py_round ?mean 2)),
            (''confidence'', PyFloat c),
            (''breakdown'', PyDict
               [(''energy_type'', dict_get data ''type'' (PyStr ''electricity_grid'')),
                (''consumption_kwh'', PyFloat q),
                (''emission_factor'', PyFloat f),
                (''basic_calculation'', PyFloat (py_round (q * f) 2)),
                (''ml_enhanced'', PyFloat (py_round p 2))]),
            (''savings_potential'', sp),
            (''recommendations'', PyList recs)]"
    using try_calculate_success[where predict = predict, OF q h f p c] by blast
  then have field: "map_of (calculate_from_energy_data predict data) ''co2_kg''
      = Some (PyFloat (py_round ?mean 2))"
    by (simp add: calculate_from_energy_data_def)
  have "0 < f" using f by (rule lookup_positive)
  then have "0 \<le> ?mean" using q0 p0 by simp
  then have nonneg: "0 \<le> py_round ?mean 2" by (rule py_round_nonneg)
  from field nonneg py_round_rounds_to[of 2 ?mean] show ?thesis by blast
qed

text \<open>
  Claim C1 fails in the code on \<^verbatim>\<open>{'kWh': '500'}\<close>. The quantity parses to the float 500, as
  the claim supposes: \<^verbatim>\<open>calculate_from_energy_data\<close>, \<^verbatim>\<open>calculate_savings_potential\<close> and
  \<^verbatim>\<open>generate_recommendations\<close> all read it through \<^verbatim>\<open>float\<close>. The household size defaults
  to 2 and the factor to 0.416, so the formula estimate is 208; with the target surface of
  the default model as the model, the prediction on \<open>(500, 2, 1.0, 0.8)\<close> is 299.52, and the
  mean that the claim requires is 253.76. But \<^verbatim>\<open>calculate_confidence\<close> alone compares the
  value of the map as it stands, the string, with 0: this raises \<^verbatim>\<open>TypeError\<close>, and the
  result is the dictionary of the \<^verbatim>\<open>except\<close> branch, whose \<^verbatim>\<open>co2_kg\<close> is 0. This is so
  for every model \<open>predict\<close>, while the formula estimate alone is 208.
\<close>

theorem estimate_numeric_string_divergence:
  "py_float (dict_get [''kWh'' \<mapsto> PyStr ''500''] ''kWh'' (PyInt 0)) = Inr 500
   \<and> py_int (dict_get [''kWh'' \<mapsto> PyStr ''500''] ''household_size'' (PyInt 2)) = Inr 2
   \<and> emission_factor_lookup
        (dict_get [''kWh'' \<mapsto> PyStr ''500''] ''type'' (PyStr ''electricity_grid'')) = Inr 0.416
   \<and> synthetic_target [500, real_of_int 2, 1.0, 0.8] = Inr 299.52
   \<and> (500 * 0.416 + 299.52) / 2 = (253.76 :: real)
   \<and> (\<exists>savings. calculate_savings_potential [''kWh'' \<mapsto> PyStr ''500''] = Inr savings)
   \<and> generate_recommendations [''kWh'' \<mapsto> PyStr ''500''] 253.76
        = Inr [smart_thermostat 500]
   \<and> calculate_confidence [''kWh'' \<mapsto> PyStr ''500''] = Inl TypeError
   \<and> calculate_from_energy_data synthetic_target [''kWh'' \<mapsto> PyStr ''500'']
        = [(''co2_kg'', PyInt 0), (''confidence'', PyInt 0), (''error'', PyStrOf TypeError)]
   \<and> map_of (calculate_from_energy_data predict [''kWh'' \<mapsto> PyStr ''500''])
        ''co2_kg'' = Some (PyInt 0)"
proof -
  have "calculate_confidence [''kWh'' \<mapsto> PyStr ''500''] = Inl TypeError"
    by (simp add: calculate_confidence_def)
  then obtain e where "try_calculate predict [''kWh'' \<mapsto> PyStr ''500''] = Inl e"
    using try_calculate_fails[of "[''kWh'' \<mapsto> PyStr ''500'']" TypeError predict] by blast
  then have every_model: "map_of (calculate_from_energy_data predict [''kWh'' \<mapsto> PyStr ''500''])
      ''co2_kg'' = Some (PyInt 0)"
    by (simp add: calculate_from_energy_data_def error_result_def)
  have "py_float (dict_get [''kWh'' \<mapsto> PyStr ''500''] ''kWh'' (PyInt 0)) = Inr 500
   \<and> py_int (dict_get [''kWh'' \<mapsto> PyStr ''500''] ''household_size'' (PyInt 2)) = Inr 2
   \<and> emission_factor_lookup
        (dict_get [''kWh'' \<mapsto> PyStr ''500''] ''type'' (PyStr ''electricity_grid'')) = Inr 0.416
   \<and> synthetic_target [500, real_of_int 2, 1.0, 0.8] = Inr 299.52
   \<and> (500 * 0.416 + 299.52) / 2 = (253.76 :: real)
   \<and> (\<exists>savings. calculate_savings_potential [''kWh'' \<mapsto> PyStr ''500''] = Inr savings)
   \<and> generate_recommendations [''kWh'' \<mapsto> PyStr ''500''] 253.76
        = Inr [smart_thermostat 500]
   \<and> calculate_confidence [''kWh'' \<mapsto> PyStr ''500''] = Inl TypeError
   \<and> calculate_from_energy_data synthetic_target [''kWh'' \<mapsto> PyStr ''500'']
        = [(''co2_kg'', PyInt 0), (''confidence'', PyInt 0), (''error'', PyStrOf TypeError)]"
    by (simp add: calc_defs literal_defs)
  with every_model show ?thesis by blast
qed

subsection \<open>The error result\<close>

text \<open>
  Claim C2, as amended. When a conversion inside the estimation raises (the quantity does not
  convert to a float, the household size does not convert to an integer, the source kind cannot
  be hashed, or the confidence computation cannot compare the quantity), the calculator does
  not raise: it returns the dictionary with exactly the three fields \<^verbatim>\<open>co2_kg\<close> = 0,
  \<^verbatim>\<open>confidence\<close> = 0 and \<^verbatim>\<open>error\<close>, the text of an exception. It has no breakdown, savings
  potential or recommendations.
\<close>

theorem conversion_error_result:
  assumes "py_float (dict_get data ''kWh'' (PyInt 0)) = Inl e
      \<or> py_int (dict_get data ''household_size'' (PyInt 2)) = Inl e
      \<or> emission_factor_lookup (dict_get data ''type'' (PyStr ''electricity_grid'')) = Inl e
      \<or> calculate_confidence data = Inl e"
  shows "(\<exists>e'. calculate_from_energy_data predict data
            = [(''co2_kg'', PyInt 0), (''confidence'', PyInt 0), (''error'', PyStrOf e')])
       \<and> map fst (calculate_from_energy_data predict data) = [''co2_kg'', ''confidence'', ''error'']"
proof -
  obtain e' where "try_calculate predict data = Inl e'"
    using try_calculate_fails[OF assms] by blast
  then show ?thesis
    by (simp add: calculate_from_energy_data_def error_result_def)
qed

theorem conversion_error_result_witness:
  "py_float (dict_get [''kWh'' \<mapsto> PyStr ''abc''] ''kWh'' (PyInt 0)) = Inl ValueError
   \<and> map fst (calculate_from_energy_data synthetic_target [''kWh'' \<mapsto> PyStr ''abc''])
        = [''co2_kg'', ''confidence'', ''error'']"
  using conversion_error_result
    [where data = "[''kWh'' \<mapsto> PyStr ''abc'']" and e = ValueError and predict = synthetic_target]
  by (simp add: dict_get_def literal_defs)

text \<open>
  Claim C2 as stated fails on \<^verbatim>\<open>{'kWh': 'abc'}\<close>: the result has the keys \<^verbatim>\<open>co2_kg\<close>,
  \<^verbatim>\<open>confidence\<close> and \<^verbatim>\<open>error\<close> only, where the result for \<^verbatim>\<open>{'kWh': 100}\<close> has
  \<^verbatim>\<open>co2_kg\<close>, \<^verbatim>\<open>confidence\<close>, \<^verbatim>\<open>breakdown\<close>, \<^verbatim>\<open>savings_potential\<close> and \<^verbatim>\<open>recommendations\<close>.
\<close>

theorem error_result_shape_counterexample:
  "py_float (dict_get [''kWh'' \<mapsto> PyStr ''abc''] ''kWh'' (PyInt 0)) = Inl ValueError
   \<and> map fst (calculate_from_energy_data synthetic_target [''kWh'' \<mapsto> PyStr ''abc''])
        = [''co2_kg'', ''confidence'', ''error'']
   \<and> map_of (calculate_from_energy_data synthetic_target [''kWh'' \<mapsto> PyStr ''abc''])
        ''breakdown'' = None
   \<and> map_of (calculate_from_energy_data synthetic_target [''kWh'' \<mapsto> PyStr ''abc''])
        ''savings_potential'' = None
   \<and> map_of (calculate_from_energy_data synthetic_target [''kWh'' \<mapsto> PyStr ''abc''])
        ''recommendations'' = None
   \<and> map fst (calculate_from_energy_data synthetic_target [''kWh'' \<mapsto> PyInt 100])
        = [''co2_kg'', ''confidence'', ''breakdown'', ''savings_potential'', ''recommendations'']"
  by (simp add: calc_defs literal_defs)

subsection \<open>The confidence score\<close>

text \<open>
  Claim C3, as amended. For every input map on which the estimation returns without an error
  field, the quantity converts to some \<open>q\<close> and the confidence of the result is 0.5, plus 0.2 if
  \<open>q > 0\<close>, plus 0.1 for each of \<^verbatim>\<open>'type'\<close>, \<^verbatim>\<open>'household_size'\<close> and \<^verbatim>\<open>'region'\<close> that is a
  key of the map, at most 1. For every input map, with or without an error, the confidence
  of the result is a number in \<open>[0, 1]\<close>.
\<close>

theorem confidence_of_estimate:
  "(map_of (calculate_from_energy_data predict data) ''error'' = None \<longrightarrow>
      (\<exists>q. py_float (dict_get data ''kWh'' (PyInt 0)) = Inr q \<and>
           map_of (calculate_from_energy_data predict data) ''confidence''
             = Some (PyFloat (confidence_formula data q))))
   \<and> (\<exists>c x. map_of (calculate_from_energy_data predict data) ''confidence'' = Some c
         \<and> py_float c = Inr x \<and> 0 \<le> x \<and> x \<le> 1)"
proof (cases "try_calculate predict data")
  case (Inl e)
  then show ?thesis
    by (simp add: calculate_from_energy_data_def error_result_def float_of_small_int)
next
  case (Inr res)
  from try_calculate_Inr[OF Inr] obtain q h f p c sp recs where
    q: "py_float (dict_get data ''kWh'' (PyInt 0)) = Inr q"
    and c: "calculate_confidence data = Inr c"
    and res: "map_of res ''confidence'' = Some (PyFloat c)"
    by auto
  have "c = confidence_formula data q" using c q by (rule confidence_value)
  moreover have "0 \<le> c \<and> c \<le> 1" using c by (rule confidence_range)
  ultimately show ?thesis using Inr q res
    by (auto simp add: calculate_from_energy_data_def)
qed

theorem confidence_of_estimate_witness:
  "map_of (calculate_from_energy_data synthetic_target
        [''kWh'' \<mapsto> PyInt 1500, ''type'' \<mapsto> PyStr ''solar'']) ''error'' = None
   \<and> map_of (calculate_from_energy_data synthetic_target
        [''kWh'' \<mapsto> PyInt 1500, ''type'' \<mapsto> PyStr ''solar'']) ''confidence''
       = Some (PyFloat 0.8)"
  using confidence_of_estimate
    [of synthetic_target "[''kWh'' \<mapsto> PyInt 1500, ''type'' \<mapsto> PyStr ''solar'']"]
  by (simp add: calc_defs confidence_formula_def)

text \<open>
  Claim C3 as stated fails on \<^verbatim>\<open>{'household_size': 'many'}\<close>: the quantity defaults to 0, the
  key \<^verbatim>\<open>'household_size'\<close> is present, so the stated score is 0.5 + 0.1; the household size does
  not convert, and the confidence of the result is 0.
\<close>

theorem confidence_of_estimate_counterexample:
  "py_float (dict_get [''household_size'' \<mapsto> PyStr ''many''] ''kWh'' (PyInt 0)) = Inr 0
   \<and> confidence_formula [''household_size'' \<mapsto> PyStr ''many''] 0 = 0.6
   \<and> map_of (calculate_from_energy_data synthetic_target [''household_size'' \<mapsto> PyStr ''many''])
        ''confidence'' = Some (PyInt 0)"
  by (simp add: calc_defs literal_defs confidence_formula_def)

subsection \<open>Recommendations\<close>



subsection \<open>Savings potential\<close>

text \<open>
  Claim C5, as amended. For every input map whose quantity converts to \<open>q\<close>, whatever source
  kind it declares, the savings potential has exactly the three measures LED lighting (15%,
  Easy), smart thermostat (12%, Medium) and efficient appliances (20%, Hard); the quantity saved
  is \<open>q\<close> times the percentage rounded to one decimal, and the CO2 saved is the unrounded
  quantity saved times the grid coefficient 0.416, rounded to two decimals. The rounded value
  is a multiple of the unit nearest to the exact one; which neighbour is taken at a tie is
  left open.
\<close>

theorem savings_against_grid_factor:
  assumes "py_float (dict_get data ''kWh'' (PyInt 0)) = Inr q"
  shows "\<exists>led_kwh led_co2 thermostat_kwh thermostat_co2 appliances_kwh appliances_co2.
     calculate_savings_potential data = Inr (PyDict
       [(''led_lighting'', PyDict
           [(''kwh_saved'', PyFloat led_kwh),
            (''co2_saved'', PyFloat led_co2),
            (''cost_easy'', PyStr ''Easy'')]),
        (''smart_thermostat'', PyDict
           [(''kwh_saved'', PyFloat thermostat_kwh),
            (''co2_saved'', PyFloat thermostat_co2),
            (''cost_easy'', PyStr ''Medium'')]),
        (''efficient_appliances'', PyDict
           [(''kwh_saved'', PyFloat appliances_kwh),
            (''co2_saved'', PyFloat appliances_co2),
            (''cost_easy'', PyStr ''Hard'')])])
     \<and> rounds_to 1 (q * 0.15) led_kwh
     \<and> rounds_to 2 (q * 0.15 * 0.416) led_co2
     \<and> rounds_to 1 (q * 0.12) thermostat_kwh
     \<and> rounds_to 2 (q * 0.12 * 0.416) thermostat_co2
     \<and> rounds_to 1 (q * 0.20) appliances_kwh
     \<and> rounds_to 2 (q * 0.20 * 0.416) appliances_co2"
proof -
  have "calculate_savings_potential data = Inr (PyDict
       [(''led_lighting'', PyDict
           [(''kwh_saved'', PyFloat (py_round (q * 0.15) 1)),
            (''co2_saved'', PyFloat (py_round (q * 0.15 * 0.416) 2)),
            (''cost_easy'', PyStr ''Easy'')]),
        (''smart_thermostat'', PyDict
           [(''kwh_saved'', PyFloat (py_round (q * 0.12) 1)),
            (''co2_saved'', PyFloat (py_round (q * 0.12 * 0.416) 2)),
            (''cost_easy'', PyStr ''Medium'')]),
        (''efficient_appliances'', PyDict
           [(''kwh_saved'', PyFloat (py_round (q * 0.20) 1)),
            (''co2_saved'', PyFloat (py_round (q * 0.20 * 0.416) 2)),
            (''cost_easy'', PyStr ''Hard'')])])"
    using savings_succeeds[OF assms] by (simp add: savings_entry_def)
  then show ?thesis
    using py_round_rounds_to[of 1 "q * 0.15"] py_round_rounds_to[of 2 "q * 0.15 * 0.416"]
      py_round_rounds_to[of 1 "q * 0.12"] py_round_rounds_to[of 2 "q * 0.12 * 0.416"]
      py_round_rounds_to[of 1 "q * 0.20"] py_round_rounds_to[of 2 "q * 0.20 * 0.416"]
    by blast
qed

text \<open>
  The example of the claim: 1000 kWh, declared as coal, saves 150.0 kWh and 62.4 kg with LED
  lighting. None of the six values is near a tie.
\<close>

theorem savings_against_grid_factor_witness:
  "py_float (dict_get [''kWh'' \<mapsto> PyInt 1000, ''type'' \<mapsto> PyStr ''coal''] ''kWh'' (PyInt 0))
     = Inr 1000
   \<and> rounds_to 1 (1000 * 0.15) 150 \<and> rounds_to 2 (1000 * 0.15 * 0.416) 62.4
   \<and> calculate_savings_potential [''kWh'' \<mapsto> PyInt 1000, ''type'' \<mapsto> PyStr ''coal''] = Inr (PyDict
     [(''led_lighting'', PyDict
         [(''kwh_saved'', PyFloat 150), (''co2_saved'', PyFloat 62.4),
          (''cost_easy'', PyStr ''Easy'')]),
      (''smart_thermostat'', PyDict
         [(''kwh_saved'', PyFloat 120), (''co2_saved'', PyFloat 49.92),
          (''cost_easy'', PyStr ''Medium'')]),
      (''efficient_appliances'', PyDict
         [(''kwh_saved'', PyFloat 200), (''co2_saved'', PyFloat 83.2),
          (''cost_easy'', PyStr ''Hard'')])])"
  using savings_against_grid_factor
    [where data = "[''kWh'' \<mapsto> PyInt 1000, ''type'' \<mapsto> PyStr ''coal'']" and q = 1000]
  by (simp add: calc_defs py_round_def round_half_even_def rounds_to_def)

text \<open>
  Claim C5 as stated fails on \<^verbatim>\<open>{'kWh': 2}\<close>: the thermostat's quantity saved is 0.2, not
  2 * 0.12, and its CO2 saved is 0.1, neither 0.2 * 0.416 nor 2 * 0.12 * 0.416. None of the
  six values is near a tie.
\<close>

theorem savings_unrounded_counterexample:
  "calculate_savings_potential [''kWh'' \<mapsto> PyInt 2] = Inr (PyDict
     [(''led_lighting'', PyDict
         [(''kwh_saved'', PyFloat 0.3), (''co2_saved'', PyFloat 0.12),
          (''cost_easy'', PyStr ''Easy'')]),
      (''smart_thermostat'', PyDict
         [(''kwh_saved'', PyFloat 0.2), (''co2_saved'', PyFloat 0.1),
          (''cost_easy'', PyStr ''Medium'')]),
      (''efficient_appliances'', PyDict
         [(''kwh_saved'', PyFloat 0.4), (''co2_saved'', PyFloat 0.17),
          (''cost_easy'', PyStr ''Hard'')])])
   \<and> (0.2 :: real) \<noteq> 2 * 0.12
   \<and> (0.1 :: real) \<noteq> 0.2 * 0.416
   \<and> (0.1 :: real) \<noteq> 2 * 0.12 * 0.416"
  by (simp add: calc_defs py_round_def round_half_even_def)

subsection \<open>The emission-factor lookup\<close>

text \<open>
  Claim C8, as amended. For every source kind that can be hashed (a string, a number, a
  boolean or \<^verbatim>\<open>None\<close>) the lookup of the estimation succeeds: the eight kinds of the table
  resolve to their coefficients, and every other value to the grid coefficient 0.416. For a
  list or a dictionary the lookup raises \<^verbatim>\<open>TypeError\<close>.
\<close>

theorem emission_factor_lookup_on_hashable:
  "(hashable v \<longrightarrow> emission_factor_lookup v =
       Inr (case v of
              PyStr s \<Rightarrow> (case map_of EMISSION_FACTORS s of None \<Rightarrow> 0.416 | Some f \<Rightarrow> f)
            | _ \<Rightarrow> 0.416))
   \<and> (\<not> hashable v \<longrightarrow> emission_factor_lookup v = Inl TypeError)
   \<and> map (\<lambda>k. emission_factor_lookup (PyStr k))
        [''electricity_grid'', ''natural_gas'', ''gasoline'', ''diesel'', ''coal'', ''solar'',
         ''wind'', ''hydro'']
      = [Inr 0.416, Inr 0.202, Inr 2.31, Inr 2.68, Inr 0.820, Inr 0.041, Inr 0.011, Inr 0.024]
   \<and> (\<forall>s. s \<notin> fst ` set EMISSION_FACTORS \<longrightarrow> emission_factor_lookup (PyStr s) = Inr 0.416)"
proof -
  have "\<And>s. s \<notin> fst ` set EMISSION_FACTORS \<Longrightarrow> map_of EMISSION_FACTORS s = None"
    by (simp add: map_of_eq_None_iff)
  then have "\<forall>s. s \<notin> fst ` set EMISSION_FACTORS
      \<longrightarrow> emission_factor_lookup (PyStr s) = Inr 0.416"
    by (simp add: hashable_lookup)
  moreover have "map (\<lambda>k. emission_factor_lookup (PyStr k))
        [''electricity_grid'', ''natural_gas'', ''gasoline'', ''diesel'', ''coal'', ''solar'',
         ''wind'', ''hydro'']
      = [Inr 0.416, Inr 0.202, Inr 2.31, Inr 2.68, Inr 0.820, Inr 0.041, Inr 0.011, Inr 0.024]"
    by (simp add: emission_factor_lookup_def factor_item_def factor_get_def EMISSION_FACTORS_def)
  ultimately show ?thesis
    using hashable_lookup[of v] unhashable_lookup[of v] by blast
qed

theorem emission_factor_lookup_on_hashable_witness:
  "hashable (PyStr ''biomass'') \<and> emission_factor_lookup (PyStr ''biomass'') = Inr 0.416
   \<and> \<not> hashable (PyList [PyStr ''coal''])
   \<and> emission_factor_lookup (PyList [PyStr ''coal'']) = Inl TypeError
   \<and> emission_factor_lookup (PyStr ''coal'') = Inr 0.82"
  using emission_factor_lookup_on_hashable [of "PyStr ''biomass''"]
    emission_factor_lookup_on_hashable [of "PyList [PyStr ''coal'']"]
  by (simp add: EMISSION_FACTORS_def)

text \<open>
  Claim C8 as stated fails on the JSON value \<^verbatim>\<open>[]\<close>: the lookup raises, and the estimation
  on \<^verbatim>\<open>{'kWh': 100, 'type': []}\<close> returns the dictionary of the \<^verbatim>\<open>except\<close> branch.
\<close>

theorem emission_factor_lookup_counterexample:
  "emission_factor_lookup (PyList []) = Inl TypeError
   \<and> calculate_from_energy_data synthetic_target [''kWh'' \<mapsto> PyInt 100, ''type'' \<mapsto> PyList []]
       = [(''co2_kg'', PyInt 0), (''confidence'', PyInt 0), (''error'', PyStrOf TypeError)]"
  by (simp add: calc_defs)

subsection \<open>A quantity given as a string\<close>

text \<open>
  Claim C10. If the input map gives the quantity \<^verbatim>\<open>'kWh'\<close> as a string that converts to a
  float, such as \<^verbatim>\<open>"500"\<close>, then the confidence computation, which compares the value of the
  map itself with 0, raises \<^verbatim>\<open>TypeError\<close>, and the estimation returns the result with
  \<^verbatim>\<open>co2_kg\<close> = 0, \<^verbatim>\<open>confidence\<close> = 0 and an error text.
\<close>

theorem numeric_string_quantity_fails:
  assumes "data ''kWh'' = Some (PyStr s)"
    and "py_float (PyStr s) = Inr q"
  shows "py_float (dict_get data ''kWh'' (PyInt 0)) = Inr q
       \<and> calculate_confidence data = Inl TypeError
       \<and> (\<exists>e. calculate_from_energy_data predict data
             = [(''co2_kg'', PyInt 0), (''confidence'', PyInt 0), (''error'', PyStrOf e)])"
proof -
  have c: "calculate_confidence data = Inl TypeError"
    using assms(1) by (simp add: calculate_confidence_def)
  then obtain e where "try_calculate predict data = Inl e"
    using try_calculate_fails[of data TypeError predict] by blast
  with c assms show ?thesis
    by (simp add: calculate_from_energy_data_def error_result_def dict_get_def)
qed

theorem numeric_string_quantity_fails_witness:
  "py_float (PyStr ''500'') = Inr 500
   \<and> calculate_confidence [''kWh'' \<mapsto> PyStr ''500''] = Inl TypeError
   \<and> calculate_from_energy_data synthetic_target [''kWh'' \<mapsto> PyStr ''500'']
        = [(''co2_kg'', PyInt 0), (''confidence'', PyInt 0), (''error'', PyStrOf TypeError)]"
  using numeric_string_quantity_fails
    [where data = "[''kWh'' \<mapsto> PyStr ''500'']" and s = "''500''" and q = 500
       and predict = synthetic_target]
  by (simp add: calc_defs literal_defs)

section \<open>Properties of the bill parser\<close>

lemmas bill_defs =
  parse_utility_bill_def extract_kwh_def extract_amount_def extract_period_def
  extract_provider_def Let_def

subsection \<open>The matcher finds the matches of a pattern\<close>

text \<open>
  The spans of a repetition are the input with 0, 1, ... characters dropped, up to the length
  of the longest prefix in the class.
\<close>

lemma spans_eq: "spans P s = map (\<lambda>k. drop k s) [0..<Suc (length (takeWhile P s))]"
proof (induction s)
  case Nil
  then show ?case by simp
next
  case (Cons c cs)
  show ?case
  proof (cases "P c")
    case True
    have "map (\<lambda>k. drop k (c # cs)) [0..<Suc (Suc (length (takeWhile P cs)))]
        = (c # cs) # map (\<lambda>k. drop k cs) [0..<Suc (length (takeWhile P cs))]"
      by (subst map_upt_Suc) simp
    with True Cons show ?thesis by simp
  next
    case False
    then show ?thesis by simp
  qed
qed

lemma set_repeats:
  "set (repeats P lo hi s) =
     {drop k s | k. lo \<le> k \<and> k \<le> length (takeWhile P s)
                  \<and> (case hi of None \<Rightarrow> True | Some h \<Rightarrow> k \<le> h)}"
proof (cases hi)
  case None
  have "set (repeats P lo hi s) = (\<lambda>k. drop k s) ` set (drop lo [0..<Suc (length (takeWhile P s))])"
    using None by (simp add: repeats_def spans_eq drop_map del: upt_Suc)
  also have "\<dots> = (\<lambda>k. drop k s) ` {k. lo \<le> k \<and> k \<le> length (takeWhile P s)}"
    by (simp add: drop_upt del: upt_Suc) (auto intro!: arg_cong[where f = "image _"])
  finally show ?thesis using None by auto
next
  case (Some h)
  let ?n = "length (takeWhile P s)"
  have "take (Suc h) [0..<Suc ?n] = [0..<Suc (min h ?n)]"
    by (simp add: take_upt min_def del: upt_Suc)
  then have "set (repeats P lo hi s) = (\<lambda>k. drop k s) ` set (drop lo [0..<Suc (min h ?n)])"
    using Some by (simp add: repeats_def spans_eq drop_map take_map del: upt_Suc)
  also have "\<dots> = (\<lambda>k. drop k s) ` {k. lo \<le> k \<and> k \<le> ?n \<and> k \<le> h}"
    by (simp add: drop_upt del: upt_Suc) (auto intro!: arg_cong[where f = "image _"])
  finally show ?thesis using Some by auto
qed

lemma take_all_P:
  assumes "k \<le> length (takeWhile P s)"
  shows "\<forall>x\<in>set (take k s). P x"
proof -
  have "take k s = take k (takeWhile P s @ dropWhile P s)" by simp
  also have "\<dots> = take k (takeWhile P s)" using assms by (simp del: takeWhile_dropWhile_id)
  finally have "set (take k s) \<subseteq> set (takeWhile P s)" by (metis set_take_subset)
  then show ?thesis by (auto dest: set_takeWhileD)
qed

lemma repeats_sound:
  assumes "r \<in> set (repeats P lo hi s)"
  shows "\<exists>u. s = u @ r \<and> (\<forall>x\<in>set u. P x) \<and> lo \<le> length u
           \<and> (case hi of None \<Rightarrow> True | Some h \<Rightarrow> length u \<le> h)"
proof -
  from assms obtain k where k: "r = drop k s" "lo \<le> k" "k \<le> length (takeWhile P s)"
    "(case hi of None \<Rightarrow> True | Some h \<Rightarrow> k \<le> h)"
    unfolding set_repeats by blast
  have "k \<le> length s" using k(3) length_takeWhile_le[of P s] by (rule order_trans)
  then have "length (take k s) = k" by simp
  with k take_all_P[OF k(3)] show ?thesis
    by (intro exI[of _ "take k s"]) (auto split: option.splits)
qed

lemma repeats_complete:
  assumes "\<forall>x\<in>set u. P x" and "lo \<le> length u"
    and "(case hi of None \<Rightarrow> True | Some h \<Rightarrow> length u \<le> h)"
  shows "rest \<in> set (repeats P lo hi (u @ rest))"
proof -
  have "takeWhile P (u @ rest) = u @ takeWhile P rest"
    using assms(1) by (simp add: takeWhile_append2)
  then have "length u \<le> length (takeWhile P (u @ rest))" by simp
  moreover have "rest = drop (length u) (u @ rest)" by simp
  ultimately show ?thesis
    unfolding set_repeats using assms(2,3) by blast
qed

text \<open>
  The matcher returns exactly the ways in which a prefix of the input matches the pattern:
  every state it returns is behind such a prefix, and every such prefix gives a state.
\<close>

lemma run_sound:
  "st' \<in> set (run ic r (s, g)) \<Longrightarrow> \<exists>u. s = u @ fst st' \<and> matches ic r u"
proof (induction r arbitrary: s g st')
  case Eps
  then show ?case by simp
next
  case (One c)
  then show ?case by (auto split: list.splits if_splits)
next
  case (Many c lo hi)
  then obtain rest where "rest \<in> set (repeats (in_class ic c) lo hi s)" and "fst st' = rest"
    by auto
  then show ?case using repeats_sound[of rest "in_class ic c" lo hi s] by auto
next
  case (Opt r)
  from Opt.prems consider "st' \<in> set (run ic r (s, g))" | "st' = (s, g)" by auto
  then show ?case
  proof cases
    case 1
    from Opt.IH[OF 1] show ?thesis by auto
  next
    case 2
    then show ?thesis by simp
  qed
next
  case (Seq r1 r2)
  from Seq.prems obtain mid where mid: "mid \<in> set (run ic r1 (s, g))"
    and st': "st' \<in> set (run ic r2 mid)" by auto
  obtain m gm where m: "mid = (m, gm)" by (cases mid)
  from Seq.IH(1)[OF mid] obtain u1 where u1: "s = u1 @ m" "matches ic r1 u1" using m by auto
  from Seq.IH(2)[of st' m gm] st' m obtain u2 where u2: "m = u2 @ fst st'" "matches ic r2 u2"
    by auto
  from u1 u2 have "s = (u1 @ u2) @ fst st'" by simp
  moreover from u1 u2 have "matches ic (Seq r1 r2) (u1 @ u2)" by auto
  ultimately show ?case by blast
next
  case (Group r)
  then obtain st'' where "st'' \<in> set (run ic r (s, g))" and "fst st' = fst st''" by force
  then show ?case using Group.IH[of st'' s g] by auto
qed

lemma run_complete:
  "matches ic r u \<Longrightarrow> \<exists>g'. (rest, g') \<in> set (run ic r (u @ rest, g))"
proof (induction r arbitrary: u rest g)
  case Eps
  then show ?case by simp
next
  case (One c)
  then show ?case by auto
next
  case (Many c lo hi)
  then have "rest \<in> set (repeats (in_class ic c) lo hi (u @ rest))"
    by (intro repeats_complete) auto
  then show ?case by force
next
  case (Opt r)
  then show ?case by (cases "u = []") (auto dest: Opt.IH)
next
  case (Seq r1 r2)
  then obtain u1 u2 where u: "u = u1 @ u2" and m1: "matches ic r1 u1" and m2: "matches ic r2 u2"
    by auto
  from Seq.IH(1)[OF m1, of "u2 @ rest" g] obtain g1 where
    "(u2 @ rest, g1) \<in> set (run ic r1 (u1 @ u2 @ rest, g))" by blast
  moreover from Seq.IH(2)[OF m2, of rest g1] obtain g2 where
    "(rest, g2) \<in> set (run ic r2 (u2 @ rest, g1))" by blast
  ultimately show ?case using u by force
next
  case (Group r)
  then have "matches ic r u" by simp
  from Group.IH[OF this, of rest g] obtain g' where "(rest, g') \<in> set (run ic r (u @ rest, g))"
    by blast
  then show ?case by force
qed

lemma matches_accepts: "matches ic r u \<Longrightarrow> \<forall>x\<in>set u. accepts ic r x"
  by (induction r arbitrary: u) auto

lemma re_match_None_iff:
  "re_match ic r s = None \<longleftrightarrow> \<not> (\<exists>u rest. s = u @ rest \<and> matches ic r u)"
proof
  assume none: "re_match ic r s = None"
  show "\<not> (\<exists>u rest. s = u @ rest \<and> matches ic r u)"
  proof
    assume "\<exists>u rest. s = u @ rest \<and> matches ic r u"
    then obtain u rest where "s = u @ rest" "matches ic r u" by blast
    with run_complete[of ic r u rest None] have "run ic r (s, None) \<noteq> []" by auto
    with none show False by (simp add: re_match_def split: list.splits)
  qed
next
  assume no: "\<not> (\<exists>u rest. s = u @ rest \<and> matches ic r u)"
  show "re_match ic r s = None"
  proof (cases "run ic r (s, None)")
    case Nil
    then show ?thesis by (simp add: re_match_def)
  next
    case (Cons st sts)
    then have "st \<in> set (run ic r (s, None))" by simp
    from run_sound[OF this] no show ?thesis by blast
  qed
qed

lemma re_search_None_tail: "re_search ic r (c # cs) = None \<Longrightarrow> re_search ic r cs = None"
  by (simp split: option.splits)

lemma re_search_None_head: "re_search ic r s = None \<Longrightarrow> re_match ic r s = None"
  by (cases s) (simp_all split: option.splits)

lemma split_within: "xs @ ys = u @ v \<Longrightarrow> length u \<le> length xs \<Longrightarrow> \<exists>w. xs = u @ w"
  by (auto simp add: append_eq_append_conv2)

lemma split_beyond: "xs @ c # ys = u @ v \<Longrightarrow> \<not> length u \<le> length xs \<Longrightarrow> c \<in> set u"
proof -
  assume eq: "xs @ c # ys = u @ v" and len: "\<not> length u \<le> length xs"
  from eq obtain us where "xs = u @ us \<and> us @ c # ys = v \<or> xs @ us = u \<and> c # ys = us @ v"
    unfolding append_eq_append_conv2 by blast
  with len have u: "xs @ us = u" and c: "c # ys = us @ v" by auto
  from u len have "us \<noteq> []" by auto
  with c obtain us' where "us = c # us'" by (cases us) auto
  with u show "c \<in> set u" by auto
qed

text \<open>A search passes over a part without match that is followed by a character the pattern cannot take.\<close>

lemma re_search_skip:
  assumes "re_search ic r before = None" and "\<not> accepts ic r c"
  shows "re_search ic r (before @ c # rest) = re_search ic r (c # rest)"
  using assms(1)
proof (induction before)
  case Nil
  then show ?case by simp
next
  case (Cons b bs)
  have "re_match ic r ((b # bs) @ c # rest) = None"
  proof (rule ccontr)
    assume "re_match ic r ((b # bs) @ c # rest) \<noteq> None"
    then obtain u rest' where u: "(b # bs) @ c # rest = u @ rest'" and m: "matches ic r u"
      by (auto simp add: re_match_None_iff)
    show False
    proof (cases "length u \<le> length (b # bs)")
      case True
      from split_within[OF u True] obtain w where "b # bs = u @ w" by blast
      with m have "re_match ic r (b # bs) \<noteq> None" unfolding re_match_None_iff by blast
      with re_search_None_head[OF Cons.prems] show False by simp
    next
      case False
      from split_beyond[OF u False] have "c \<in> set u" .
      with matches_accepts[OF m] assms(2) show False by blast
    qed
  qed
  moreover have "re_search ic r (bs @ c # rest) = re_search ic r (c # rest)"
    using Cons.IH re_search_None_tail[OF Cons.prems] by simp
  ultimately show ?case by simp
qed

subsection \<open>A match of the date pattern is never empty\<close>

lemma date_match_nonempty: "matches False date_pattern u \<Longrightarrow> u \<noteq> []"
  by (auto simp add: date_pattern_def)

lemma date_match_at:
  assumes "re_match False date_pattern s = Some (rest, g)"
  shows "length rest < length s"
proof -
  from assms have "(rest, g) \<in> set (run False date_pattern (s, None))"
    by (auto simp add: re_match_def split: list.splits)
  from run_sound[OF this] obtain u where "s = u @ rest" and "matches False date_pattern u"
    by auto
  then show ?thesis using date_match_nonempty[of u] by simp
qed

lemma search_is_match:
  "re_search ic r s = Some m \<Longrightarrow> \<exists>t. length t \<le> length s \<and> re_match ic r t = Some m"
proof (induction s)
  case Nil
  then show ?case by auto
next
  case (Cons c cs)
  show ?case
  proof (cases "re_match ic r (c # cs)")
    case None
    with Cons obtain t where "length t \<le> length cs" "re_match ic r t = Some m" by auto
    then show ?thesis by (intro exI[of _ t]) simp
  next
    case (Some m')
    with Cons.prems show ?thesis by (intro exI[of _ "c # cs"]) simp
  qed
qed

lemma date_match_shorter:
  assumes "re_search False date_pattern s = Some (rest, g)"
  shows "length rest < length s"
proof -
  from search_is_match[OF assms] obtain t where "length t \<le> length s"
    and "re_match False date_pattern t = Some (rest, g)" by blast
  then show ?thesis using date_match_at[of t rest g] by simp
qed

lemma findall_dates:
  "re_findall False date_pattern s =
     (case re_search False date_pattern s of
        None \<Rightarrow> []
      | Some (rest, g) \<Rightarrow> (case g of None \<Rightarrow> [] | Some t \<Rightarrow> t) # re_findall False date_pattern rest)"
  by (subst re_findall.simps) (auto split: option.splits dest: date_match_shorter)

subsection \<open>Two dates in a text are found\<close>

text \<open>The strings that the date pattern matches are the dates of the shape described above.\<close>

lemma matches_SeqI: "matches ic r u \<Longrightarrow> matches ic rs v \<Longrightarrow> matches ic (Seq r rs) (u @ v)"
  by auto

lemma matches_SeqE: "matches ic (Seq r rs) w \<Longrightarrow> \<exists>u v. w = u @ v \<and> matches ic r u \<and> matches ic rs v"
  by auto

lemma matches_date_parts:
  "matches False date_pattern d \<longleftrightarrow>
     (\<exists>month gap day comma space year.
        d = month @ gap @ day @ comma @ space @ year
        \<and> matches False (Many Word 1 None) month
        \<and> matches False (Many Space 1 None) gap
        \<and> matches False (Many Digit 1 (Some 2)) day
        \<and> matches False (Opt (One (Lit CHR '',''))) comma
        \<and> matches False (Many Space 1 None) space
        \<and> matches False (Many Digit 4 (Some 4)) year)"
proof
  assume "matches False date_pattern d"
  then have "matches False (Seq (Many Word 1 None) (Seq (Many Space 1 None)
      (Seq (Many Digit 1 (Some 2)) (Seq (Opt (One (Lit CHR '','')))
      (Seq (Many Space 1 None) (Seq (Many Digit 4 (Some 4)) Eps)))))) d"
    unfolding date_pattern_def by (simp only: seq.simps matches.simps(6))
  then obtain month r1 where "d = month @ r1" "matches False (Many Word 1 None) month"
    and "matches False (Seq (Many Space 1 None)
      (Seq (Many Digit 1 (Some 2)) (Seq (Opt (One (Lit CHR '','')))
      (Seq (Many Space 1 None) (Seq (Many Digit 4 (Some 4)) Eps))))) r1"
    using matches_SeqE by blast
  moreover then obtain gap r2 where "r1 = gap @ r2" "matches False (Many Space 1 None) gap"
    and "matches False (Seq (Many Digit 1 (Some 2)) (Seq (Opt (One (Lit CHR '','')))
      (Seq (Many Space 1 None) (Seq (Many Digit 4 (Some 4)) Eps)))) r2"
    using matches_SeqE by blast
  moreover then obtain day r3 where "r2 = day @ r3" "matches False (Many Digit 1 (Some 2)) day"
    and "matches False (Seq (Opt (One (Lit CHR '','')))
      (Seq (Many Space 1 None) (Seq (Many Digit 4 (Some 4)) Eps))) r3"
    using matches_SeqE by blast
  moreover then obtain comma r4 where "r3 = comma @ r4"
    "matches False (Opt (One (Lit CHR '',''))) comma"
    and "matches False (Seq (Many Space 1 None) (Seq (Many Digit 4 (Some 4)) Eps)) r4"
    using matches_SeqE by blast
  moreover then obtain space r5 where "r4 = space @ r5" "matches False (Many Space 1 None) space"
    and "matches False (Seq (Many Digit 4 (Some 4)) Eps) r5"
    using matches_SeqE by blast
  moreover then have "matches False (Many Digit 4 (Some 4)) r5"
    by auto
  ultimately show "\<exists>month gap day comma space year.
        d = month @ gap @ day @ comma @ space @ year
        \<and> matches False (Many Word 1 None) month
        \<and> matches False (Many Space 1 None) gap
        \<and> matches False (Many Digit 1 (Some 2)) day
        \<and> matches False (Opt (One (Lit CHR '',''))) comma
        \<and> matches False (Many Space 1 None) space
        \<and> matches False (Many Digit 4 (Some 4)) year"
    by blast
next
  assume "\<exists>month gap day comma space year.
        d = month @ gap @ day @ comma @ space @ year
        \<and> matches False (Many Word 1 None) month
        \<and> matches False (Many Space 1 None) gap
        \<and> matches False (Many Digit 1 (Some 2)) day
        \<and> matches False (Opt (One (Lit CHR '',''))) comma
        \<and> matches False (Many Space 1 None) space
        \<and> matches False (Many Digit 4 (Some 4)) year"
  then obtain month gap day comma space year where
    d0: "d = month @ gap @ day @ comma @ space @ year"
    and m1: "matches False (Many Word 1 None) month"
    and m2: "matches False (Many Space 1 None) gap"
    and m3: "matches False (Many Digit 1 (Some 2)) day"
    and m4: "matches False (Opt (One (Lit CHR '',''))) comma"
    and m5: "matches False (Many Space 1 None) space"
    and m6: "matches False (Many Digit 4 (Some 4)) year"
    by blast
  have d: "d = month @ gap @ day @ comma @ space @ year @ []" using d0 by simp
  have m7: "matches False Eps []" by simp
  show "matches False date_pattern d"
    unfolding date_pattern_def d
    by (simp only: seq.simps matches.simps(6))
       (intro matches_SeqI m1 m2 m3 m4 m5 m6 m7)
qed

lemma date_shaped_matches: "date_shaped d \<longleftrightarrow> matches False date_pattern d"
proof -
  have m: "\<And>u. matches False (Many Word 1 None) u \<longleftrightarrow> u \<noteq> [] \<and> (\<forall>c\<in>set u. is_word c)"
    by (auto simp add: Suc_le_eq)
  have s: "\<And>u. matches False (Many Space 1 None) u \<longleftrightarrow> u \<noteq> [] \<and> (\<forall>c\<in>set u. is_space c)"
    by (auto simp add: Suc_le_eq)
  have dd: "\<And>u. matches False (Many Digit 1 (Some 2)) u
      \<longleftrightarrow> (length u = 1 \<or> length u = 2) \<and> (\<forall>c\<in>set u. is_digit c)"
    by (auto simp add: le_Suc_eq)
  have c: "\<And>u. matches False (Opt (One (Lit CHR '',''))) u \<longleftrightarrow> (u = [] \<or> u = '','')"
    by auto
  have y: "\<And>u. matches False (Many Digit 4 (Some 4)) u
      \<longleftrightarrow> length u = 4 \<and> (\<forall>c\<in>set u. is_digit c)"
    by auto
  show ?thesis
    unfolding matches_date_parts date_shaped_def m s dd c y by (simp only: conj_assoc)
qed

text \<open>
  A date holds whitespace in two places and ends with four characters that are not
  whitespace, behind whitespace. So a date that holds another date ends where that one ends:
  behind it there is room neither for more whitespace nor for more of the year.
\<close>

lemma word_not_space: "is_word c \<Longrightarrow> \<not> is_space c"
  by (auto simp add: is_word_def is_space_def)

lemma digit_not_space: "is_digit c \<Longrightarrow> \<not> is_space c"
  by (auto simp add: is_digit_def is_space_def)

lemma space_ends_no_space: "\<forall>c\<in>set u. \<not> is_space c \<Longrightarrow> space_ends (u @ v) = space_ends v"
proof (induction u)
  case Nil
  then show ?case by simp
next
  case (Cons a u)
  then show ?case by (cases "u @ v") auto
qed

lemma space_ends_space:
  "\<forall>c\<in>set u. is_space c \<Longrightarrow> u \<noteq> [] \<Longrightarrow> v = b # w \<Longrightarrow> \<not> is_space b
   \<Longrightarrow> space_ends (u @ v) = Suc (space_ends v)"
proof (induction u)
  case Nil
  then show ?case by simp
next
  case (Cons a u)
  then show ?case by (cases u) auto
qed

lemma space_ends_Cons: "space_ends v \<le> space_ends (a # v)"
  by (cases v) auto

lemma space_ends_append: "space_ends u + space_ends v \<le> space_ends (u @ v)"
proof (induction u rule: space_ends.induct)
  case 1
  then show ?case by simp
next
  case (2 z)
  then show ?case using space_ends_Cons[of v z] by simp
next
  case (3 x y zs)
  then show ?case by simp
qed

lemma space_ends_positive:
  "\<exists>c\<in>set u. is_space c \<Longrightarrow> u \<noteq> [] \<Longrightarrow> \<not> is_space (last u) \<Longrightarrow> 1 \<le> space_ends u"
proof (induction u rule: space_ends.induct)
  case 1
  then show ?case by simp
next
  case (2 z)
  then show ?case by simp
next
  case (3 x y zs)
  then show ?case by (auto split: if_splits)
qed

lemma date_space_ends:
  assumes "date_shaped d"
  shows "space_ends d = 2"
proof -
  from assms obtain month gap day comma space year where
    d: "d = month @ gap @ day @ comma @ space @ year"
    and month: "\<forall>c\<in>set month. is_word c"
    and gap: "gap \<noteq> []" "\<forall>c\<in>set gap. is_space c"
    and day: "length day = 1 \<or> length day = 2" "\<forall>c\<in>set day. is_digit c"
    and comma: "comma = [] \<or> comma = '',''"
    and space: "space \<noteq> []" "\<forall>c\<in>set space. is_space c"
    and year: "length year = 4" "\<forall>c\<in>set year. is_digit c"
    unfolding date_shaped_def by blast
  from day obtain b day' where day': "day = b # day'" by (cases day) auto
  with day have b: "\<not> is_space b" by (simp add: digit_not_space)
  from year obtain y year' where year': "year = y # year'" by (cases year) auto
  with year have y: "\<not> is_space y" by (simp add: digit_not_space)
  have "\<not> is_space CHR '',''" by (simp add: is_space_def)
  then have "\<forall>c\<in>set comma. \<not> is_space c" using comma by auto
  then have nsp: "\<forall>c\<in>set (day @ comma). \<not> is_space c"
    using day(2) by (auto simp add: digit_not_space)
  have "space_ends year = space_ends (year @ [])" by simp
  also have "\<dots> = 0"
    using year(2) by (subst space_ends_no_space) (auto simp add: digit_not_space)
  finally have e1: "space_ends year = 0" .
  have e2: "space_ends (space @ year) = Suc 0"
    using space_ends_space[OF space(2) space(1) year' y] e1 by simp
  have e3: "space_ends ((day @ comma) @ space @ year) = Suc 0"
    using space_ends_no_space[OF nsp, of "space @ year"] e2 by simp
  have "space_ends (gap @ day @ comma @ space @ year) = Suc (space_ends (day @ comma @ space @ year))"
    using space_ends_space[OF gap(2) gap(1) _ b, of "day @ comma @ space @ year" "day' @ comma @ space @ year"]
      day' by simp
  with e3 have e4: "space_ends (gap @ day @ comma @ space @ year) = 2" by simp
  have "space_ends (month @ gap @ day @ comma @ space @ year) = 2"
    using space_ends_no_space[of month "gap @ day @ comma @ space @ year"] month e4
    by (simp add: word_not_space)
  then show ?thesis using d by simp
qed

lemma date_tail:
  assumes "date_shaped d"
  shows "\<exists>h sp y. d = h @ sp # y \<and> is_space sp \<and> length y = 4 \<and> (\<forall>c\<in>set y. \<not> is_space c)"
proof -
  from assms obtain month gap day comma space year where
    d: "d = month @ gap @ day @ comma @ space @ year"
    and space: "space \<noteq> []" "\<forall>c\<in>set space. is_space c"
    and year: "length year = 4" "\<forall>c\<in>set year. is_digit c"
    unfolding date_shaped_def by blast
  from space(1) obtain g sp where g: "space = g @ [sp]" by (cases space rule: rev_cases) auto
  with space(2) have sp: "is_space sp" by simp
  have "d = (month @ gap @ day @ comma @ g) @ sp # year" using d g by simp
  with sp year show ?thesis by (metis digit_not_space)
qed

lemma tail_unique:
  assumes "h @ sp # y = h' @ sp' # y'" and "is_space sp" and "is_space sp'"
    and "\<forall>c\<in>set y. \<not> is_space c" and "\<forall>c\<in>set y'. \<not> is_space c"
  shows "y = y'"
proof -
  have a: "takeWhile (\<lambda>c. \<not> is_space c) (rev (h @ sp # y)) = rev y"
    using assms(2,4) by (simp add: takeWhile_tail)
  have b: "takeWhile (\<lambda>c. \<not> is_space c) (rev (h' @ sp' # y')) = rev y'"
    using assms(3,5) by (simp add: takeWhile_tail)
  from a b assms(1) have "rev y = rev y'" by simp
  then show ?thesis by simp
qed

lemma date_no_extension:
  assumes M: "date_shaped M" and d: "date_shaped d" and eq: "M = a @ d @ b"
  shows "b = []"
proof (rule ccontr)
  assume b: "b \<noteq> []"
  from date_tail[OF M] obtain h sp y where Mt: "M = h @ sp # y" and sp: "is_space sp"
    and y: "length y = 4" "\<forall>c\<in>set y. \<not> is_space c" by blast
  from date_tail[OF d] obtain h' sp' y' where dt: "d = h' @ sp' # y'" and sp': "is_space sp'"
    and y': "length y' = 4" "\<forall>c\<in>set y'. \<not> is_space c" by blast
  from y(1) have yne: "y \<noteq> []" by auto
  have "last M = last y" using Mt yne by simp
  moreover have "last M = last b" using eq b by simp
  moreover have "\<not> is_space (last y)" using y(2) yne by simp
  ultimately have lastb: "\<not> is_space (last b)" by simp
  show False
  proof (cases "\<exists>c\<in>set b. is_space c")
    case True
    from space_ends_positive[OF True b lastb] have "1 \<le> space_ends b" .
    moreover have "space_ends d + space_ends b \<le> space_ends (d @ b)" by (rule space_ends_append)
    moreover have "space_ends a + space_ends (d @ b) \<le> space_ends (a @ d @ b)"
      by (rule space_ends_append)
    ultimately have "3 \<le> space_ends M"
      using date_space_ends[OF d] eq by simp
    with date_space_ends[OF M] show False by simp
  next
    case False
    then have "\<forall>c\<in>set (y' @ b). \<not> is_space c" using y'(2) by auto
    moreover have "h @ sp # y = (a @ h') @ sp' # (y' @ b)" using Mt eq dt by simp
    ultimately have "y = y' @ b" using tail_unique sp sp' y(2) by blast
    with y(1) y'(1) b show False by simp
  qed
qed

text \<open>
  A search in a text that holds a string which the pattern matches succeeds, with a match that
  begins no later than this string. For the date pattern the match also ends no later than
  that date, and the group is the match. Hence a text with two dates, one behind the
  other, gives \<^verbatim>\<open>re.findall\<close> at least two dates to find.
\<close>

lemma re_match_Some:
  assumes "re_match ic r s = Some (rest, g)"
  shows "\<exists>u. s = u @ rest \<and> matches ic r u"
proof -
  from assms have "(rest, g) \<in> set (run ic r (s, None))"
    by (auto simp add: re_match_def split: list.splits)
  from run_sound[OF this] show ?thesis by simp
qed

lemma re_match_group:
  assumes "re_match ic (Group r) s = Some (rest, g)"
  shows "\<exists>u. s = u @ rest \<and> g = Some u"
proof -
  from assms have "(rest, g) \<in> set (run ic (Group r) (s, None))"
    by (auto simp add: re_match_def split: list.splits)
  then obtain st where st: "st \<in> set (run ic r (s, None))" and rest: "rest = fst st"
    and g: "g = Some (take (length s - length (fst st)) s)"
    by auto
  from run_sound[OF st] obtain u where "s = u @ fst st" by blast
  with rest g show ?thesis by auto
qed

lemma re_search_head: "re_match ic r s = Some m \<Longrightarrow> re_search ic r s = Some m"
  by (cases s) simp_all

lemma search_finds:
  assumes "matches ic r d"
  shows "\<exists>q u rest g. re_search ic r (p @ d @ s) = Some (rest, g) \<and> p @ d @ s = q @ u @ rest
           \<and> length q \<le> length p \<and> re_match ic r (u @ rest) = Some (rest, g)"
proof (induction p)
  case Nil
  from assms have "re_match ic r (d @ s) \<noteq> None"
    unfolding re_match_None_iff by blast
  then obtain rest g where m: "re_match ic r (d @ s) = Some (rest, g)" by auto
  from re_match_Some[OF m] obtain u where "d @ s = u @ rest" by blast
  with m re_search_head[OF m] show ?case
    by (rule_tac x = "[]" in exI, rule_tac x = u in exI, rule_tac x = rest in exI,
        rule_tac x = g in exI) simp
next
  case (Cons c p)
  show ?case
  proof (cases "re_match ic r ((c # p) @ d @ s)")
    case None
    from Cons.IH obtain q u rest g where
      "re_search ic r (p @ d @ s) = Some (rest, g)" "p @ d @ s = q @ u @ rest"
      "length q \<le> length p" "re_match ic r (u @ rest) = Some (rest, g)"
      by blast
    with None show ?thesis
      by (rule_tac x = "c # q" in exI, rule_tac x = u in exI, rule_tac x = rest in exI,
          rule_tac x = g in exI) simp
  next
    case (Some m)
    obtain rest g where mg: "m = (rest, g)" by (cases m)
    from re_match_Some[OF Some[unfolded mg]] obtain u where "(c # p) @ d @ s = u @ rest"
      by blast
    with Some mg re_search_head[OF Some] show ?thesis
      by (rule_tac x = "[]" in exI, rule_tac x = u in exI, rule_tac x = rest in exI,
          rule_tac x = g in exI) simp
  qed
qed

lemma find_date:
  assumes "date_shaped d"
  shows "\<exists>q found rest. re_search False date_pattern (p @ d @ s) = Some (rest, Some found)
           \<and> p @ d @ s = q @ found @ rest \<and> date_shaped found
           \<and> length (q @ found) \<le> length (p @ d)"
proof -
  from assms have "matches False date_pattern d" by (simp add: date_shaped_matches)
  from search_finds[OF this, of p s] obtain q u rest g where
    search: "re_search False date_pattern (p @ d @ s) = Some (rest, g)"
    and eq: "p @ d @ s = q @ u @ rest"
    and q: "length q \<le> length p"
    and m: "re_match False date_pattern (u @ rest) = Some (rest, g)"
    by blast
  from re_match_Some[OF m] have "matches False date_pattern u" by simp
  then have u: "date_shaped u" by (simp add: date_shaped_matches)
  from m have "\<exists>w. u @ rest = w @ rest \<and> g = Some w"
    unfolding date_pattern_def by (rule re_match_group)
  then have g: "g = Some u" by simp
  have "length (q @ u) \<le> length (p @ d)"
  proof (rule ccontr)
    assume long: "\<not> length (q @ u) \<le> length (p @ d)"
    from split_within[OF eq q] obtain a where p: "p = q @ a" by blast
    with eq have eq': "(a @ d) @ s = u @ rest" by simp
    from long p have "length (a @ d) < length u" by simp
    with eq' obtain b where "u = (a @ d) @ b"
      by (auto simp add: append_eq_append_conv2)
    then have ub: "u = a @ d @ b" by simp
    from date_no_extension[OF u assms ub] have "b = []" .
    with ub long p show False by simp
  qed
  with search eq u g show ?thesis by blast
qed

lemma two_dates_found:
  assumes "date_shaped first_date" and "date_shaped second_date"
  shows "\<exists>start_date end_date more_dates.
           re_findall False date_pattern (p @ first_date @ between @ second_date @ s)
             = start_date # end_date # more_dates
           \<and> date_shaped start_date \<and> date_shaped end_date"
proof -
  from find_date[OF assms(1), of p "between @ second_date @ s"]
  obtain q found rest where
    s1: "re_search False date_pattern (p @ first_date @ between @ second_date @ s)
           = Some (rest, Some found)"
    and eq: "p @ first_date @ between @ second_date @ s = q @ found @ rest"
    and f1: "date_shaped found"
    and len: "length (q @ found) \<le> length (p @ first_date)"
    by blast
  from eq have eq': "(p @ first_date) @ (between @ second_date @ s) = (q @ found) @ rest"
    by simp
  from split_within[OF eq' len] obtain w where w: "p @ first_date = (q @ found) @ w" by blast
  from eq' have "(q @ found) @ (w @ between) @ second_date @ s = (q @ found) @ rest"
    unfolding w by simp
  then have rest: "rest = (w @ between) @ second_date @ s" by (simp only: same_append_eq)
  from find_date[OF assms(2), of "w @ between" s]
  obtain q' found' rest' where
    s2: "re_search False date_pattern rest = Some (rest', Some found')"
    and f2: "date_shaped found'"
    unfolding rest by blast
  have "re_findall False date_pattern (p @ first_date @ between @ second_date @ s)
      = found # found' # re_findall False date_pattern rest'"
    using s1 s2 by (simp add: findall_dates)
  with f1 f2 show ?thesis by blast
qed

subsection \<open>Where the first patterns match\<close>

text \<open>
  The first quantity pattern can only match at a digit and the first amount pattern only at a
  dollar sign, so a search passes over a prefix without them.
\<close>

lemma kwh1_needs_digit: "\<not> is_digit c \<Longrightarrow> re_match True kwh_pattern1 (c # s) = None"
  by (simp add: re_match_def kwh_pattern1_def number_group_def repeats_def)

lemma kwh1_skip:
  "\<forall>c\<in>set pre. \<not> is_digit c \<Longrightarrow> re_search True kwh_pattern1 (pre @ s) = re_search True kwh_pattern1 s"
  by (induction pre) (simp_all add: kwh1_needs_digit)

lemma kwh1_at_850:
  "re_match True kwh_pattern1 (''850 kWh'' @ post) = Some (post, Some ''850'')"
  by (simp add: re_match_def kwh_pattern1_def number_group_def repeats_def is_digit_def
      is_space_def lower_char_def upper_letters_def lower_letters_def)

lemma kwh1_total_usage:
  "re_search True kwh_pattern1 (''Total Usage: 850 kWh'' @ post) = Some (post, Some ''850'')"
proof -
  have "re_search True kwh_pattern1 (''Total Usage: '' @ ''850 kWh'' @ post)
      = re_search True kwh_pattern1 (''850 kWh'' @ post)"
    by (rule kwh1_skip) (simp add: is_digit_def)
  also have "\<dots> = Some (post, Some ''850'')"
    using kwh1_at_850[of post] by simp
  finally show ?thesis by simp
qed


lemma lower_char_dollar: "(lower_char c = CHR ''$'') = (c = CHR ''$'')"
proof
  assume a: "lower_char c = CHR ''$''"
  show "c = CHR ''$''"
  proof (cases "map_of (zip upper_letters lower_letters) c")
    case None
    then show ?thesis using a by (simp add: lower_char_def)
  next
    case (Some l)
    then have "l \<in> set lower_letters"
      by (meson map_of_SomeD set_zip_rightD)
    moreover from Some a have "l = CHR ''$''" by (simp add: lower_char_def)
    ultimately show ?thesis by (simp add: lower_letters_def)
  qed
next
  assume "c = CHR ''$''"
  then show "lower_char c = CHR ''$''"
    by (simp add: lower_char_def upper_letters_def lower_letters_def)
qed

lemma lower_dollar: "lower_char CHR ''$'' = CHR ''$''"
  by (simp add: lower_char_dollar)

lemma amount1_needs_dollar: "c \<noteq> CHR ''$'' \<Longrightarrow> re_match True amount_pattern1 (c # s) = None"
  by (simp add: re_match_def amount_pattern1_def lower_dollar lower_char_dollar)

lemma amount1_skip:
  "CHR ''$'' \<notin> set pre \<Longrightarrow>
   re_search True amount_pattern1 (pre @ s) = re_search True amount_pattern1 s"
  by (induction pre) (auto simp add: amount1_needs_dollar)

lemma spans_stop: "\<not> starts_with_digit post \<Longrightarrow> spans (in_class ic Digit) post = [post]"
  by (cases post) (simp_all add: starts_with_digit_def)

lemma amount1_at_120:
  "\<not> starts_with_digit post \<Longrightarrow>
   re_match True amount_pattern1 (''$120.50'' @ post) = Some (post, Some ''120.50'')"
  by (simp add: re_match_def amount_pattern1_def number_group_def repeats_def is_digit_def
      lower_dollar lower_char_dollar spans_stop)

lemma amount1_amount_due:
  assumes "\<not> starts_with_digit post"
  shows "re_search True amount_pattern1 (''Amount Due: $120.50'' @ post)
           = Some (post, Some ''120.50'')"
proof -
  have "re_search True amount_pattern1 (''Amount Due: '' @ ''$120.50'' @ post)
      = re_search True amount_pattern1 (''$120.50'' @ post)"
    by (rule amount1_skip) simp
  also have "\<dots> = Some (post, Some ''120.50'')"
    using amount1_at_120[OF assms] by simp
  finally show ?thesis by simp
qed

text \<open>
  Neither pattern can take the first letter of the phrase that introduces its field, so a
  match that starts before the phrase ends before it.
\<close>

lemma kwh1_rejects_T: "\<not> accepts True kwh_pattern1 CHR ''T''"
  by (simp add: kwh_pattern1_def number_group_def is_digit_def is_space_def lower_char_def
      upper_letters_def lower_letters_def)

lemma amount1_rejects_A: "\<not> accepts True amount_pattern1 CHR ''A''"
  by (simp add: amount_pattern1_def number_group_def is_digit_def lower_char_def
      upper_letters_def lower_letters_def)

lemma kwh1_found:
  assumes "re_search True kwh_pattern1 before = None"
  shows "re_search True kwh_pattern1 (before @ ''Total Usage: 850 kWh'' @ post)
           = Some (post, Some ''850'')"
proof -
  have "re_search True kwh_pattern1 (before @ CHR ''T'' # ''otal Usage: 850 kWh'' @ post)
      = re_search True kwh_pattern1 (CHR ''T'' # ''otal Usage: 850 kWh'' @ post)"
    using assms kwh1_rejects_T by (rule re_search_skip)
  then show ?thesis using kwh1_total_usage[of post] by simp
qed

lemma amount1_found:
  assumes "re_search True amount_pattern1 before = None" and "\<not> starts_with_digit post"
  shows "re_search True amount_pattern1 (before @ ''Amount Due: $120.50'' @ post)
           = Some (post, Some ''120.50'')"
proof -
  have "re_search True amount_pattern1 (before @ CHR ''A'' # ''mount Due: $120.50'' @ post)
      = re_search True amount_pattern1 (CHR ''A'' # ''mount Due: $120.50'' @ post)"
    using assms(1) amount1_rejects_A by (rule re_search_skip)
  then show ?thesis using amount1_amount_due[OF assms(2)] by simp
qed

lemma float_850: "py_float (group1 (Some ''850'')) = Inr 850"
  by (simp add: group1_def literal_defs)

lemma float_120_50: "py_float (group1 (Some ''120.50'')) = Inr 120.5"
  by (simp add: group1_def literal_defs)

lemma provider_step:
  "kwh (extract_provider text r) = kwh r \<and> amount (extract_provider text r) = amount r
   \<and> service_period (extract_provider text r) = service_period r
   \<and> confidence r \<le> confidence (extract_provider text r)"
  by (simp add: extract_provider_def split: option.splits)

subsection \<open>Empty text\<close>

text \<open>
  Claim C6. On the empty text the parser returns its defaults (quantity 0, amount 0, empty
  service period and provider) with confidence 0, and the image analysis has no carbon
  analysis. For every text the carbon analysis is present if and only if the extracted
  quantity is greater than zero, and it is then the estimate for that quantity from the
  electricity grid.
\<close>

theorem empty_text_extraction:
  "parse_utility_bill []
     = \<lparr>kwh = 0, amount = 0, service_period = [], provider = [], confidence = 0\<rparr>
   \<and> carbon_analysis (analyze_image predict []) = None
   \<and> carbon_analysis (analyze_image predict raw_text)
       = (if 0 < kwh (parse_utility_bill raw_text)
          then Some (calculate_from_energy_data predict
                       [''kWh'' \<mapsto> PyFloat (kwh (parse_utility_bill raw_text)),
                        ''type'' \<mapsto> PyStr ''electricity_grid''])
          else None)
   \<and> (carbon_analysis (analyze_image predict raw_text) \<noteq> None)
       = (0 < kwh (parse_utility_bill raw_text))"
proof -
  have "parse_utility_bill []
     = \<lparr>kwh = 0, amount = 0, service_period = [], provider = [], confidence = 0\<rparr>"
    by code_simp
  then show ?thesis
    by (simp add: analyze_image_def Let_def)
qed

text \<open>An instance with a quantity: the text \<^verbatim>\<open>850 kWh\<close> is estimated at 431.39 kg.\<close>

lemma parse_850_kwh:
  "parse_utility_bill ''850 kWh''
     = \<lparr>kwh = 850, amount = 0, service_period = [], provider = [], confidence = 0.3\<rparr>"
proof -
  have "first_match kwh_patterns ''850 kWh'' = Some ([], Some ''850'')" by code_simp
  moreover have "first_match amount_patterns ''850 kWh'' = None" by code_simp
  moreover have "re_findall False date_pattern ''850 kWh'' = []" by code_simp
  moreover have "find (\<lambda>p. contains (lower ''850 kWh'') (lower p)) providers = None"
    by code_simp
  ultimately show ?thesis
    by (simp add: bill_defs float_850)
qed

theorem empty_text_extraction_witness:
  "kwh (parse_utility_bill ''850 kWh'') = 850
   \<and> map_option (\<lambda>r. map_of r ''co2_kg'') (carbon_analysis (analyze_image synthetic_target ''850 kWh''))
       = Some (Some (PyFloat 431.39))"
  using empty_text_extraction [of synthetic_target "''850 kWh''"]
  by (simp add: parse_850_kwh calc_defs synthetic_target_def py_round_def round_half_even_def)

subsection \<open>A bill with usage, amount and two dates\<close>

text \<open>
  Claim C7, as amended. Take a text that holds \<^verbatim>\<open>Total Usage: 850 kWh\<close> with no match of the
  first quantity pattern (a number followed by \<^verbatim>\<open>kWh\<close>) in the text before it, and
  \<^verbatim>\<open>Amount Due: $120.50\<close> with no match of the first amount pattern (a dollar sign followed
  by a number) in the text before it and no digit right behind it, and that holds two dates
  of the shape \<^verbatim>\<open><Month> <day>, <year>\<close>, one behind the other. Then the extracted quantity is
  850, the amount is 120.50, at least two dates are found in the text, the service period
  is the first two dates found, joined by \<^verbatim>\<open>" - "\<close>, hence not empty, and the confidence is
  at least 0.7.
\<close>

theorem first_match_extraction:
  assumes k: "raw_text = before_usage @ ''Total Usage: 850 kWh'' @ after_usage"
    and nk: "re_search True kwh_pattern1 before_usage = None"
    and a: "raw_text = before_amount @ ''Amount Due: $120.50'' @ after_amount"
    and na: "re_search True amount_pattern1 before_amount = None"
    and nd: "\<not> starts_with_digit after_amount"
    and d: "raw_text = before_dates @ first_date @ between_dates @ second_date @ after_dates"
    and fd: "date_shaped first_date"
    and sd: "date_shaped second_date"
  shows "kwh (parse_utility_bill raw_text) = 850
       \<and> amount (parse_utility_bill raw_text) = 120.50
       \<and> (\<exists>start_date end_date more_dates.
             re_findall False date_pattern raw_text = start_date # end_date # more_dates
             \<and> date_shaped start_date \<and> date_shaped end_date
             \<and> service_period (parse_utility_bill raw_text) = start_date @ '' - '' @ end_date)
       \<and> service_period (parse_utility_bill raw_text) \<noteq> []
       \<and> 0.7 \<le> confidence (parse_utility_bill raw_text)"
proof -
  from two_dates_found[OF fd sd, of before_dates between_dates after_dates]
  obtain start_date end_date more_dates where
    found: "re_findall False date_pattern raw_text = start_date # end_date # more_dates"
    and shaped: "date_shaped start_date" "date_shaped end_date"
    unfolding d by blast
  let ?r0 = "\<lparr>kwh = 0, amount = 0, service_period = [], provider = [], confidence = 0\<rparr>"
  let ?r1 = "\<lparr>kwh = 850, amount = 0, service_period = [], provider = [], confidence = 0.3\<rparr>"
  let ?r2 = "\<lparr>kwh = 850, amount = 120.5, service_period = [], provider = [], confidence = 0.5\<rparr>"
  let ?r3 = "\<lparr>kwh = 850, amount = 120.5, service_period = start_date @ '' - '' @ end_date,
              provider = [], confidence = 0.7\<rparr>"
  have "re_search True kwh_pattern1 raw_text = Some (after_usage, Some ''850'')"
    unfolding k using nk by (rule kwh1_found)
  then have "first_match kwh_patterns raw_text = Some (after_usage, Some ''850'')"
    by (simp add: kwh_patterns_def)
  then have s1: "extract_kwh raw_text ?r0 = Inr ?r1"
    by (simp add: extract_kwh_def float_850)
  have "re_search True amount_pattern1 raw_text = Some (after_amount, Some ''120.50'')"
    unfolding a using na nd by (rule amount1_found)
  then have "first_match amount_patterns raw_text = Some (after_amount, Some ''120.50'')"
    by (simp add: amount_patterns_def)
  then have s2: "extract_amount raw_text ?r1 = Inr ?r2"
    by (simp add: extract_amount_def float_120_50)
  have s3: "extract_period raw_text ?r2 = ?r3"
    by (simp add: extract_period_def found)
  have p: "parse_utility_bill raw_text
      = (extract_provider raw_text ?r3)
          \<lparr>confidence := min (confidence (extract_provider raw_text ?r3)) 1.0\<rparr>"
    using s1 s2 s3 by (simp add: parse_utility_bill_def Let_def)
  have "confidence ?r3 = 0.7" by simp
  then have c: "0.7 \<le> confidence (extract_provider raw_text ?r3)"
    using provider_step[of raw_text "?r3"] by simp
  have sp: "service_period (parse_utility_bill raw_text) = start_date @ '' - '' @ end_date"
    unfolding p using provider_step[of raw_text "?r3"] by simp
  have "kwh (parse_utility_bill raw_text) = 850
      \<and> amount (parse_utility_bill raw_text) = 120.50
      \<and> service_period (parse_utility_bill raw_text) \<noteq> []
      \<and> 0.7 \<le> confidence (parse_utility_bill raw_text)"
    unfolding p using c provider_step[of raw_text "?r3"] by simp
  with found shaped sp show ?thesis by blast
qed

text \<open>
  An instance: in the sample bill an account number stands before the usage, the usage
  before the amount, and the two dates behind the amount.
\<close>

lemma sample_dates_shaped: "date_shaped ''Jan 1, 2024'' \<and> date_shaped ''Jan 31, 2024''"
proof -
  have "re_match False date_pattern ''Jan 1, 2024'' = Some ([], Some ''Jan 1, 2024'')"
    by code_simp
  from re_match_Some[OF this] have one: "matches False date_pattern ''Jan 1, 2024''" by simp
  have "re_match False date_pattern ''Jan 31, 2024'' = Some ([], Some ''Jan 31, 2024'')"
    by code_simp
  from re_match_Some[OF this] have two: "matches False date_pattern ''Jan 31, 2024''" by simp
  from one two show ?thesis by (simp add: date_shaped_matches)
qed

lemma sample_bill_dates:
  "re_findall False date_pattern sample_bill = [''Jan 1, 2024'', ''Jan 31, 2024'']"
  unfolding sample_bill_def by code_simp

lemma sample_bill_before_usage: "re_search True kwh_pattern1 ''PG&E Account 4471 '' = None"
  by code_simp

lemma sample_bill_before_amount:
  "re_search True amount_pattern1 ''PG&E Account 4471 Total Usage: 850 kWh '' = None"
  by code_simp

theorem first_match_extraction_witness:
  "sample_bill = ''PG&E Account 4471 Total Usage: 850 kWh Amount Due: $120.50 ''
                   @ ''Jan 1, 2024'' @ '' '' @ ''Jan 31, 2024'' @ []
   \<and> date_shaped ''Jan 1, 2024'' \<and> date_shaped ''Jan 31, 2024''
   \<and> kwh (parse_utility_bill sample_bill) = 850
   \<and> amount (parse_utility_bill sample_bill) = 120.50
   \<and> service_period (parse_utility_bill sample_bill) = ''Jan 1, 2024 - Jan 31, 2024''
   \<and> 0.7 \<le> confidence (parse_utility_bill sample_bill)"
  using first_match_extraction
    [where before_usage = "''PG&E Account 4471 ''"
       and after_usage = "'' Amount Due: $120.50 Jan 1, 2024 Jan 31, 2024''"
       and before_amount = "''PG&E Account 4471 Total Usage: 850 kWh ''"
       and after_amount = "'' Jan 1, 2024 Jan 31, 2024''"
       and before_dates = "''PG&E Account 4471 Total Usage: 850 kWh Amount Due: $120.50 ''"
       and first_date = "''Jan 1, 2024''" and between_dates = "'' ''"
       and second_date = "''Jan 31, 2024''" and after_dates = "[]"
       and raw_text = sample_bill]
    sample_bill_dates sample_bill_before_usage sample_bill_before_amount sample_dates_shaped
  by (simp add: sample_bill_def is_digit_def starts_with_digit_def)

text \<open>
  Claim C7 as stated fails on the text \<open>bill_with_earlier_reading\<close>: it holds both substrings
  and the two dates, and the first pattern finds the earlier reading \<^verbatim>\<open>12 kWh\<close>, so the
  extracted quantity is 12.
\<close>

lemma earlier_reading_kwh:
  "first_match kwh_patterns bill_with_earlier_reading
     = Some (''. Total Usage: 850 kWh Amount Due: $120.50 Jan 1, 2024 Jan 31, 2024'', Some ''12'')"
  unfolding bill_with_earlier_reading_def by code_simp

lemma earlier_reading_amount:
  "first_match amount_patterns bill_with_earlier_reading
     = Some ('' Jan 1, 2024 Jan 31, 2024'', Some ''120.50'')"
  unfolding bill_with_earlier_reading_def by code_simp

lemma earlier_reading_dates:
  "re_findall False date_pattern bill_with_earlier_reading = [''Jan 1, 2024'', ''Jan 31, 2024'']"
  unfolding bill_with_earlier_reading_def by code_simp

lemma earlier_reading_provider:
  "find (\<lambda>p. contains (lower bill_with_earlier_reading) (lower p)) providers = None"
  unfolding bill_with_earlier_reading_def by code_simp

lemma earlier_reading_contains:
  "contains bill_with_earlier_reading ''Total Usage: 850 kWh''
   \<and> contains bill_with_earlier_reading ''Amount Due: $120.50''"
  unfolding bill_with_earlier_reading_def by code_simp

theorem earlier_reading_counterexample:
  "contains bill_with_earlier_reading ''Total Usage: 850 kWh''
   \<and> contains bill_with_earlier_reading ''Amount Due: $120.50''
   \<and> bill_with_earlier_reading
       = ''Usage 12 kWh. Total Usage: 850 kWh Amount Due: $120.50 ''
           @ ''Jan 1, 2024'' @ '' '' @ ''Jan 31, 2024''
   \<and> date_shaped ''Jan 1, 2024'' \<and> date_shaped ''Jan 31, 2024''
   \<and> re_findall False date_pattern bill_with_earlier_reading = [''Jan 1, 2024'', ''Jan 31, 2024'']
   \<and> parse_utility_bill bill_with_earlier_reading
       = \<lparr>kwh = 12, amount = 120.5, service_period = ''Jan 1, 2024 - Jan 31, 2024'',
          provider = [], confidence = 0.7\<rparr>"
  using earlier_reading_contains sample_dates_shaped
  by (simp add: bill_defs earlier_reading_kwh earlier_reading_amount earlier_reading_dates
      earlier_reading_provider group1_def literal_defs)
     (simp add: bill_with_earlier_reading_def)

subsection \<open>The bound on the confidence of an extraction\<close>

text \<open>
  Claim C9. For every text the confidence of the extracted bill data is at most 0.8: the
  clamp at 1.0 never takes effect.
\<close>

theorem extraction_confidence_bound: "confidence (parse_utility_bill raw_text) \<le> 0.8"
  unfolding parse_utility_bill_def extract_kwh_def extract_amount_def extract_period_def
    extract_provider_def Let_def
  by (auto split: sum.splits option.splits list.splits prod.splits)

text \<open>The bound is reached: the sample bill has all four fields.\<close>

lemma extraction_confidence_attained:
  "parse_utility_bill sample_bill
     = \<lparr>kwh = 850, amount = 120.5, service_period = ''Jan 1, 2024 - Jan 31, 2024'',
        provider = ''PG&E'', confidence = 0.8\<rparr>"
proof -
  have "first_match kwh_patterns sample_bill
      = Some ('' Amount Due: $120.50 Jan 1, 2024 Jan 31, 2024'', Some ''850'')"
    unfolding sample_bill_def by code_simp
  moreover have "first_match amount_patterns sample_bill
      = Some ('' Jan 1, 2024 Jan 31, 2024'', Some ''120.50'')"
    unfolding sample_bill_def by code_simp
  moreover have "find (\<lambda>p. contains (lower sample_bill) (lower p)) providers = Some ''PG&E''"
    unfolding sample_bill_def by code_simp
  ultimately show ?thesis
    by (simp add: bill_defs sample_bill_dates float_850 float_120_50)
qed

end
